theory Spec2Isabelle
  imports Main "HOL-Library.Sublist"
begin

section \<open>Strings of the Go standard library\<close>

text \<open>
  Go strings are byte sequences; they are modelled as \<^typ>\<open>string\<close> (a list of
  8-bit characters). The functions of package \<^verbatim>\<open>strings\<close> that the program calls are
  written out below. Paths use the Unix separator \<^verbatim>\<open>/\<close> (the program hard-codes
  \<^verbatim>\<open>/tmp\<close> as its cache root).
\<close>

definition bsl :: char where
  "bsl = CHR 0x5C"

definition HasPrefix :: "string \<Rightarrow> string \<Rightarrow> bool" where
  "HasPrefix s p = prefix p s"

definition HasSuffix :: "string \<Rightarrow> string \<Rightarrow> bool" where
  "HasSuffix s p = suffix p s"

definition TrimPrefix :: "string \<Rightarrow> string \<Rightarrow> string" where
  "TrimPrefix s p = (if HasPrefix s p then drop (length p) s else s)"

definition TrimSuffix :: "string \<Rightarrow> string \<Rightarrow> string" where
  "TrimSuffix s p = (if HasSuffix s p then take (length s - length p) s else s)"

definition Contains :: "string \<Rightarrow> char \<Rightarrow> bool" where
  "Contains s c = (c \<in> set s)"

text \<open>\<^verbatim>\<open>strings.Split(s, sep)\<close> for a one-byte separator: never returns an empty slice.\<close>

fun Split :: "string \<Rightarrow> char \<Rightarrow> string list" where
  "Split [] sep = [[]]"
| "Split (c # cs) sep =
     (if c = sep then [] # Split cs sep
      else (let r = Split cs sep in (c # hd r) # tl r))"

text \<open>
  \<^verbatim>\<open>strings.ReplaceAll(s, old, new)\<close> for a non-empty \<open>old\<close>: the leftmost
  occurrences, not overlapping, are replaced. (The program only calls it with two-byte
  \<open>old\<close> strings; for an empty \<open>old\<close> the model returns \<open>s\<close>.)
\<close>

function ReplaceAll :: "string \<Rightarrow> string \<Rightarrow> string \<Rightarrow> string" where
  "ReplaceAll [] old new = []"
| "ReplaceAll (c # cs) old new =
     (if old \<noteq> [] \<and> prefix old (c # cs)
      then new @ ReplaceAll (drop (length old) (c # cs)) old new
      else c # ReplaceAll cs old new)"
  by pat_completeness auto
termination
  by (relation "measure (\<lambda>(s, old, new). length s)") auto

text \<open>\<^verbatim>\<open>regexp.QuoteMeta\<close>: a backslash before each of \<^verbatim>\<open>\.+*?()|[]{}^$\<close>.\<close>

definition special :: "char \<Rightarrow> bool" where
  "special c = (c \<in> set (bsl # ''.+*?()|[]{}^$''))"

fun QuoteMeta :: "string \<Rightarrow> string" where
  "QuoteMeta [] = []"
| "QuoteMeta (c # cs) = (if special c then bsl # c # QuoteMeta cs else c # QuoteMeta cs)"


section \<open>PatternMatcher\<close>

text \<open>
  The repository holds two implementations of the matcher: the command line program
  (package \<^verbatim>\<open>main\<close>, suffix \<open>_cli\<close>) and the terminal UI (package \<^verbatim>\<open>tui\<close>,
  suffix \<open>_tui\<close>). \<^verbatim>\<open>regexp.Compile\<close> is a library function; it is a parameter
  \<open>Compile\<close> of the model, returning \<open>None\<close> for a pattern the library rejects and otherwise
  the compiled expression, represented by its \<^verbatim>\<open>MatchString\<close> method.
\<close>

type_synonym regexp = "string \<Rightarrow> bool"
type_synonym compiler = "string \<Rightarrow> regexp option"

definition isPathPattern :: "string \<Rightarrow> bool" where
  "isPathPattern pattern = HasPrefix pattern ''/''"

definition matchesPathPattern_cli :: "string \<Rightarrow> string \<Rightarrow> bool" where
  "matchesPathPattern_cli pattern relativePath =
     (if \<not> isPathPattern pattern then False
      else (let cleanPattern = TrimPrefix pattern ''/'';
                pathParts = Split relativePath (CHR ''/'')
            in if length pathParts > 0 then HasPrefix (hd pathParts) cleanPattern
               else False))"

definition matchesPattern_cli :: "compiler \<Rightarrow> string \<Rightarrow> string \<Rightarrow> string \<Rightarrow> bool" where
  "matchesPattern_cli Compile pattern relativePath baseName =
     (if isPathPattern pattern then matchesPathPattern_cli pattern relativePath
      else (case Compile pattern of
              None \<Rightarrow> False
            | Some compiled \<Rightarrow> compiled relativePath \<or> compiled baseName))"

definition globToRegex :: "string \<Rightarrow> string" where
  "globToRegex glob =
     (let result = QuoteMeta glob;
          result = ReplaceAll result [bsl, CHR ''*''] ''.*'';
          result = ReplaceAll result [bsl, CHR ''?''] ''.'';
          result = (if \<not> HasPrefix result ''.*'' then ''^'' @ result else result);
          result = (if \<not> HasSuffix result ''.*'' then result @ ''$'' else result)
      in result)"

definition matchesPathPattern_tui :: "string \<Rightarrow> string \<Rightarrow> bool" where
  "matchesPathPattern_tui pattern0 relativePath =
     (let pattern = TrimPrefix pattern0 ''/''
      in if HasSuffix pattern ''/''
         then (let pattern = TrimSuffix pattern ''/''
               in HasPrefix relativePath (pattern @ ''/'') \<or> relativePath = pattern)
         else HasPrefix relativePath pattern)"

definition regexPattern_tui :: "string \<Rightarrow> string" where
  "regexPattern_tui pattern =
     (if Contains pattern (CHR ''*'') \<or> Contains pattern (CHR ''?'')
      then globToRegex pattern else pattern)"

definition matchesPattern_tui :: "compiler \<Rightarrow> string \<Rightarrow> string \<Rightarrow> string \<Rightarrow> bool" where
  "matchesPattern_tui Compile pattern relativePath baseName =
     (if isPathPattern pattern then matchesPathPattern_tui pattern relativePath
      else (case Compile (regexPattern_tui pattern) of
              None \<Rightarrow> False
            | Some regex \<Rightarrow> regex relativePath \<or> regex baseName))"


section \<open>A fragment of Go's regular expressions\<close>

text \<open>
  Concrete runs of the matcher need a concrete \<^verbatim>\<open>regexp.Compile\<close>. The engine below
  covers the fragment of the library's syntax that the program's built-in patterns and the
  examples use: literals, \<^verbatim>\<open>.\<close>, \<^verbatim>\<open>^\<close>, \<^verbatim>\<open>$\<close>, escaped punctuation, groups,
  \<^verbatim>\<open>|\<close>, and the operators \<^verbatim>\<open>*\<close>, \<^verbatim>\<open>+\<close>, \<^verbatim>\<open>?\<close> (with an optional non-greedy
  mark). Like the library's parser it reads the pattern once from left to right and stops
  at the first error. \<open>Bad\<close> is a pattern the library rejects; \<open>Unsupported\<close> is a pattern
  outside the fragment (character classes, counted repetition, flags, escapes of letters and
  digits, bytes above 127), about which the model says nothing; the bytes \<open>0xFE\<close> and
  \<open>0xFF\<close> occur in no UTF-8 text, and the library rejects a pattern that holds one. Text is ASCII, \<^verbatim>\<open>.\<close>
  does not match a newline, and \<^verbatim>\<open>^\<close> and \<^verbatim>\<open>$\<close> match at the two ends of the text, as
  under the flags of \<^verbatim>\<open>regexp.Compile\<close>. The library's limits on the size and the
  nesting depth of an expression are not modelled.
\<close>

datatype re = Emp | Lit char | AnyNL | Bol | Eol | Cat re re | Alt re re
  | Star re | Plus re | Quest re

datatype 'a cres = Ok 'a | Bad | Unsupported

datatype rep = NoArg | AfterOpen | CanRep | Repeated | Lazy

record pstate =
  esc :: bool
  rp :: rep
  cur :: "re list"
  alts :: "re list"
  stack :: "(re list \<times> re list) list"

definition mkCat :: "re list \<Rightarrow> re" where
  "mkCat rs = (case rs of [] \<Rightarrow> Emp | r # rest \<Rightarrow> foldr (\<lambda>x acc. Cat acc x) (butlast rs) (last rs))"

definition mkAlt :: "re \<Rightarrow> re list \<Rightarrow> re" where
  "mkAlt r rs = foldr (\<lambda>x acc. Alt x acc) rs r"

definition isalnum :: "char \<Rightarrow> bool" where
  "isalnum c = (let n = (of_char c :: nat)
                in (48 \<le> n \<and> n \<le> 57) \<or> (65 \<le> n \<and> n \<le> 90) \<or> (97 \<le> n \<and> n \<le> 122))"

definition push :: "re \<Rightarrow> pstate \<Rightarrow> pstate cres" where
  "push r st = Ok (st\<lparr>esc := False, rp := CanRep, cur := r # cur st\<rparr>)"

definition repeat :: "char \<Rightarrow> pstate \<Rightarrow> pstate cres" where
  "repeat c st =
     (case rp st of
        NoArg \<Rightarrow> Bad
      | AfterOpen \<Rightarrow> (if c = CHR ''?'' then Unsupported else Bad)
      | CanRep \<Rightarrow>
          (case cur st of
             [] \<Rightarrow> Bad
           | r # rs \<Rightarrow>
               Ok (st\<lparr>rp := Repeated,
                       cur := (if c = CHR ''*'' then Star r
                               else if c = CHR ''+'' then Plus r else Quest r) # rs\<rparr>))
      | Repeated \<Rightarrow> (if c = CHR ''?'' then Ok (st\<lparr>rp := Lazy\<rparr>) else Bad)
      | Lazy \<Rightarrow> Bad)"

definition pstep :: "pstate \<Rightarrow> char \<Rightarrow> pstate cres" where
  "pstep st c =
     (if (of_char c :: nat) \<ge> 254 then Bad
      else if (of_char c :: nat) \<ge> 128 then Unsupported
      else if esc st then
        (if isalnum c then Unsupported
         else push (Lit c) st)
      else if c = bsl then Ok (st\<lparr>esc := True\<rparr>)
      else if c = CHR ''('' then
        Ok (st\<lparr>rp := AfterOpen, cur := [], alts := [], stack := (alts st, cur st) # stack st\<rparr>)
      else if c = CHR '')'' then
        (case stack st of
           [] \<Rightarrow> Bad
         | (a, k) # rest \<Rightarrow>
             Ok (st\<lparr>rp := CanRep, cur := mkAlt (mkCat (cur st)) (alts st) # k,
                     alts := a, stack := rest\<rparr>))
      else if c = CHR ''|'' then
        Ok (st\<lparr>rp := NoArg, cur := [], alts := mkCat (cur st) # alts st\<rparr>)
      else if c = CHR ''*'' \<or> c = CHR ''+'' \<or> c = CHR ''?'' then repeat c st
      else if c = CHR ''.'' then push AnyNL st
      else if c = CHR ''^'' then push Bol st
      else if c = CHR ''$'' then push Eol st
      else if c = CHR ''['' \<or> c = CHR ''{'' then Unsupported
      else push (Lit c) st)"

definition pfinish :: "pstate \<Rightarrow> re cres" where
  "pfinish st =
     (if esc st then Bad
      else if stack st \<noteq> [] then Bad
      else Ok (mkAlt (mkCat (cur st)) (alts st)))"

fun prun :: "pstate \<Rightarrow> string \<Rightarrow> re cres" where
  "prun st [] = pfinish st"
| "prun st (c # cs) =
     (case pstep st c of Ok st' \<Rightarrow> prun st' cs | Bad \<Rightarrow> Bad | Unsupported \<Rightarrow> Unsupported)"

definition re_parse :: "string \<Rightarrow> re cres" where
  "re_parse p = prun \<lparr>esc = False, rp = NoArg, cur = [], alts = [], stack = []\<rparr> p"

text \<open>
  Matching: a position of the text is the pair of "at the beginning of the text" and the
  remaining suffix; \<open>ends r n I\<close> are the positions where a match of \<open>r\<close> that starts at a
  position of \<open>I\<close> can end. A repetition is unfolded \<open>n\<close> times, with \<open>n\<close> above the length of
  the text. \<^verbatim>\<open>MatchString\<close> looks for a match starting anywhere in the text.
\<close>

type_synonym pos = "bool \<times> string"

fun consume :: "(char \<Rightarrow> bool) \<Rightarrow> pos \<Rightarrow> pos list" where
  "consume P (b, []) = []"
| "consume P (b, c # cs) = (if P c then [(False, cs)] else [])"

primrec iter :: "nat \<Rightarrow> (pos list \<Rightarrow> pos list) \<Rightarrow> pos list \<Rightarrow> pos list" where
  "iter 0 f I = I"
| "iter (Suc n) f I = I @ iter n f (remdups (f I))"

primrec ends :: "re \<Rightarrow> nat \<Rightarrow> pos list \<Rightarrow> pos list" where
  "ends Emp n I = I"
| "ends (Lit c) n I = concat (map (consume (\<lambda>x. x = c)) I)"
| "ends AnyNL n I = concat (map (consume (\<lambda>x. x \<noteq> CHR 0x0A)) I)"
| "ends Bol n I = filter fst I"
| "ends Eol n I = filter (\<lambda>p. snd p = []) I"
| "ends (Cat r1 r2) n I = ends r2 n (ends r1 n I)"
| "ends (Alt r1 r2) n I = ends r1 n I @ ends r2 n I"
| "ends (Star r) n I = iter n (ends r n) I"
| "ends (Plus r) n I = iter n (ends r n) (ends r n I)"
| "ends (Quest r) n I = I @ ends r n I"

primrec starts :: "bool \<Rightarrow> string \<Rightarrow> pos list" where
  "starts b [] = [(b, [])]"
| "starts b (c # cs) = (b, c # cs) # starts False cs"

definition MatchString :: "re \<Rightarrow> string \<Rightarrow> bool" where
  "MatchString r s = (ends r (Suc (length s)) (starts True s) \<noteq> [])"

definition re_Compile :: compiler where
  "re_Compile p = (case re_parse p of Ok r \<Rightarrow> Some (MatchString r) | Bad \<Rightarrow> None | Unsupported \<Rightarrow> None)"


section \<open>TextClassifier and FilterPipeline\<close>

text \<open>
  Errors are values. The constructors follow the places where the program creates or
  receives an error; the text of a library error is carried along.
\<close>

datatype error =
    OSError string
  | NotExist string
  | JSONError string
  | InvalidExclusion string
  | InvalidInclusion string
  | CacheCheckFailed error
  | TempDirFailed error
  | CloneFailed error
  | CacheFailed error
  | NoSourceSpecified
  | LocalDirMissing string

text \<open>
  A file as \<^verbatim>\<open>os.Open\<close> and \<^verbatim>\<open>File.Read\<close> see it: it cannot be opened, it opens but
  reading fails, or it is a regular file with its bytes. \<^verbatim>\<open>Read\<close> into a buffer of \<open>k\<close>
  zero bytes returns the number of bytes read and the error; at the end of the file it
  returns \<open>0\<close> and \<^verbatim>\<open>io.EOF\<close>.
\<close>

type_synonym bytes = string

datatype osfile = NoOpen | NoRead | Regular bytes

datatype rerr = EOF | ReadErr

definition Read :: "osfile \<Rightarrow> nat \<Rightarrow> bytes \<times> nat \<times> rerr option" where
  "Read f k =
     (case f of
        Regular bs \<Rightarrow>
          (let n = min k (length bs)
           in (take n bs @ replicate (k - n) (CHR 0x00), n, if n = 0 then Some EOF else None))
      | NoRead \<Rightarrow> (replicate k (CHR 0x00), 0, Some ReadErr)
      | NoOpen \<Rightarrow> (replicate k (CHR 0x00), 0, Some ReadErr))"

text \<open>The loop \<^verbatim>\<open>for i := 0; i < n; i++ { if buffer[i] == 0 { return false } }; return true\<close>.\<close>

function noNullBelow :: "bytes \<Rightarrow> nat \<Rightarrow> nat \<Rightarrow> bool" where
  "noNullBelow buffer i n =
     (if i < n then (if buffer ! i = CHR 0x00 then False else noNullBelow buffer (Suc i) n)
      else True)"
  by pat_completeness auto
termination
  by (relation "measure (\<lambda>(buffer, i, n). n - i)") auto

definition isTextFile_cli :: "osfile \<Rightarrow> bool" where
  "isTextFile_cli f =
     (if f = NoOpen then False
      else (let (buffer, n, err) = Read f 512
            in if err \<noteq> None \<and> err \<noteq> Some EOF then False
               else noNullBelow buffer 0 n))"

definition isTextFile_tui :: "osfile \<Rightarrow> bool" where
  "isTextFile_tui f =
     (if f = NoOpen then False
      else (let (buffer, n, err) = Read f 512
            in if err \<noteq> None \<and> n = 0 then False
               else noNullBelow buffer 0 n))"

text \<open>\<^verbatim>\<open>filepath.Base\<close> on Unix.\<close>

definition Base :: "string \<Rightarrow> string" where
  "Base path =
     (if path = [] then ''.''
      else (let p = rev (dropWhile (\<lambda>c. c = CHR ''/'') (rev path));
                b = rev (takeWhile (\<lambda>c. c \<noteq> CHR ''/'') (rev p))
            in if b = [] then ''/'' else b))"

text \<open>
  The world a scan runs in. \<^verbatim>\<open>filepath.Walk(root, fn)\<close> calls \<open>fn\<close> on one entry after
  the other and stops at the first call that returns an error; \<open>Walk w root\<close> is the
  sequence of calls it makes as long as \<open>fn\<close> returns \<^verbatim>\<open>nil\<close>: an entry the walk could not
  read (with the error it passes to \<open>fn\<close>), a directory, or a file. The callbacks of the
  program return \<^verbatim>\<open>nil\<close> or the error they received, never \<^verbatim>\<open>SkipDir\<close>.
  \<^verbatim>\<open>filepath.Rel\<close> and the file contents are the world's too.
\<close>

datatype visit = VErr string error | VDir string | VFile string

record world =
  Walk :: "string \<Rightarrow> visit list"
  Rel :: "string \<Rightarrow> string \<Rightarrow> error + string"
  fileAt :: "string \<Rightarrow> osfile"
  Compile :: compiler

fun runWalk :: "('a \<Rightarrow> visit \<Rightarrow> error option \<times> 'a) \<Rightarrow> visit list \<Rightarrow> 'a \<Rightarrow> error option \<times> 'a" where
  "runWalk fn [] acc = (None, acc)"
| "runWalk fn (v # vs) acc =
     (case fn acc v of
        (Some e, acc') \<Rightarrow> (Some e, acc')
      | (None, acc') \<Rightarrow> runWalk fn vs acc')"

definition defaultExclusionPatterns :: "string list" where
  "defaultExclusionPatterns =
     [bsl # ''.git/'',
      bsl # ''.gitignore$'',
      bsl # ''.DS_Store$'',
      ''node_modules/'',
      bsl # ''.env$'',
      bsl # ''.(jpg|jpeg|png|gif|svg|ico|bmp|tiff|webp)$'',
      bsl # ''.(mp4|mov|avi|mkv|webm|flv)$'',
      bsl # ''.(mp3|wav|flac|aac|ogg)$'',
      bsl # ''.(zip|tar|gz|rar|7z|exe|dmg|pkg)$'',
      bsl # ''.(pdf|doc|docx|xls|xlsx|ppt|pptx)$'']"

text \<open>The validation loops: the first pattern that is no path pattern and does not compile.\<close>

definition firstInvalid_cli :: "compiler \<Rightarrow> string list \<Rightarrow> string option" where
  "firstInvalid_cli C ps = find (\<lambda>pattern. \<not> isPathPattern pattern \<and> C pattern = None) ps"

definition firstInvalid_tui :: "compiler \<Rightarrow> string list \<Rightarrow> string option" where
  "firstInvalid_tui C ps =
     find (\<lambda>pattern. \<not> isPathPattern pattern \<and> C (regexPattern_tui pattern) = None) ps"

type_synonym lists = "string list \<times> string list"

definition dryRunFn_cli :: "world \<Rightarrow> string \<Rightarrow> string list \<Rightarrow> string list
    \<Rightarrow> lists \<Rightarrow> visit \<Rightarrow> error option \<times> lists" where
  "dryRunFn_cli w rootPath allExclusionPatterns inclusionPatterns acc v =
     (case acc of (includedFiles, excludedFiles) \<Rightarrow>
      (case v of
         VErr path err \<Rightarrow> (Some err, acc)
       | VDir path \<Rightarrow> (None, acc)
       | VFile path \<Rightarrow>
           (case Rel w rootPath path of
              Inl err \<Rightarrow> (Some err, acc)
            | Inr relativePath \<Rightarrow>
                if \<not> isTextFile_cli (fileAt w path)
                then (None, (includedFiles, excludedFiles @ [path]))
                else if list_ex (\<lambda>pattern. matchesPattern_cli (Compile w) pattern relativePath (Base path))
                          allExclusionPatterns
                then (None, (includedFiles, excludedFiles @ [path]))
                else if length inclusionPatterns > 0 \<and>
                        \<not> list_ex (\<lambda>pattern. matchesPattern_cli (Compile w) pattern relativePath (Base path))
                            inclusionPatterns
                then (None, (includedFiles, excludedFiles @ [path]))
                else (None, (includedFiles @ [path], excludedFiles)))))"

definition performDryRun_cli :: "world \<Rightarrow> string \<Rightarrow> string list \<Rightarrow> string list
    \<Rightarrow> string list \<times> string list \<times> error option" where
  "performDryRun_cli w rootPath exclusionPatterns inclusionPatterns =
     (case firstInvalid_cli (Compile w) exclusionPatterns of
        Some pattern \<Rightarrow> ([], [], Some (InvalidExclusion pattern))
      | None \<Rightarrow>
     (case firstInvalid_cli (Compile w) inclusionPatterns of
        Some pattern \<Rightarrow> ([], [], Some (InvalidInclusion pattern))
      | None \<Rightarrow>
     (let allExclusionPatterns = exclusionPatterns @ defaultExclusionPatterns;
          (err, (includedFiles, excludedFiles)) =
             runWalk (dryRunFn_cli w rootPath allExclusionPatterns inclusionPatterns)
               (Walk w rootPath) ([], [])
      in (includedFiles, excludedFiles, err))))"

definition collectFn_cli :: "world \<Rightarrow> string \<Rightarrow> string list \<Rightarrow> string list
    \<Rightarrow> string list \<Rightarrow> visit \<Rightarrow> error option \<times> string list" where
  "collectFn_cli w rootPath allExclusionPatterns inclusionPatterns files v =
     (case v of
        VErr path err \<Rightarrow> (Some err, files)
      | VDir path \<Rightarrow> (None, files)
      | VFile path \<Rightarrow>
          (case Rel w rootPath path of
             Inl err \<Rightarrow> (Some err, files)
           | Inr relativePath \<Rightarrow>
               if list_ex (\<lambda>pattern. matchesPattern_cli (Compile w) pattern relativePath (Base path))
                    allExclusionPatterns
               then (None, files)
               else if length inclusionPatterns > 0 \<and>
                       \<not> list_ex (\<lambda>pattern. matchesPattern_cli (Compile w) pattern relativePath (Base path))
                           inclusionPatterns
               then (None, files)
               else if isTextFile_cli (fileAt w path) then (None, files @ [path])
               else (None, files)))"

definition collectFiles_cli :: "world \<Rightarrow> string \<Rightarrow> string list \<Rightarrow> string list
    \<Rightarrow> string list \<times> error option" where
  "collectFiles_cli w rootPath exclusionPatterns inclusionPatterns =
     (case firstInvalid_cli (Compile w) exclusionPatterns of
        Some pattern \<Rightarrow> ([], Some (InvalidExclusion pattern))
      | None \<Rightarrow>
     (case firstInvalid_cli (Compile w) inclusionPatterns of
        Some pattern \<Rightarrow> ([], Some (InvalidInclusion pattern))
      | None \<Rightarrow>
     (let allExclusionPatterns = exclusionPatterns @ defaultExclusionPatterns;
          (err, files) =
             runWalk (collectFn_cli w rootPath allExclusionPatterns inclusionPatterns)
               (Walk w rootPath) []
      in (files, err))))"

definition dryRunFn_tui :: "world \<Rightarrow> string \<Rightarrow> string list \<Rightarrow> string list
    \<Rightarrow> lists \<Rightarrow> visit \<Rightarrow> error option \<times> lists" where
  "dryRunFn_tui w rootPath allExclusionPatterns validInclusionPatterns acc v =
     (case acc of (includedFiles, excludedFiles) \<Rightarrow>
      (case v of
         VErr path err \<Rightarrow> (Some err, acc)
       | VDir path \<Rightarrow> (None, acc)
       | VFile path \<Rightarrow>
           if \<not> isTextFile_tui (fileAt w path)
           then (None, (includedFiles, excludedFiles @ [path]))
           else (case Rel w rootPath path of
              Inl err \<Rightarrow> (Some err, acc)
            | Inr relativePath \<Rightarrow>
                (let baseName = Base path
                 in if list_ex (\<lambda>pattern. matchesPattern_tui (Compile w) pattern relativePath baseName)
                          allExclusionPatterns
                    then (None, (includedFiles, excludedFiles @ [path]))
                    else if length validInclusionPatterns > 0 \<and>
                        \<not> list_ex (\<lambda>pattern. matchesPattern_tui (Compile w) pattern relativePath baseName)
                            validInclusionPatterns
                    then (None, (includedFiles, excludedFiles @ [path]))
                    else (None, (includedFiles @ [path], excludedFiles))))))"

definition performDryRun_tui :: "world \<Rightarrow> string \<Rightarrow> string list \<Rightarrow> string list
    \<Rightarrow> string list \<times> string list \<times> error option" where
  "performDryRun_tui w rootPath exclusionPatterns inclusionPatterns =
     (case firstInvalid_tui (Compile w) exclusionPatterns of
        Some pattern \<Rightarrow> ([], [], Some (InvalidExclusion pattern))
      | None \<Rightarrow>
     (case firstInvalid_tui (Compile w) inclusionPatterns of
        Some pattern \<Rightarrow> ([], [], Some (InvalidInclusion pattern))
      | None \<Rightarrow>
     (let allExclusionPatterns = defaultExclusionPatterns @ exclusionPatterns;
          (err, (includedFiles, excludedFiles)) =
             runWalk (dryRunFn_tui w rootPath allExclusionPatterns inclusionPatterns)
               (Walk w rootPath) ([], [])
      in (includedFiles, excludedFiles, err))))"

definition collectFiles_tui :: "world \<Rightarrow> string \<Rightarrow> string list \<Rightarrow> string list
    \<Rightarrow> string list \<times> error option" where
  "collectFiles_tui w rootPath exclusionPatterns inclusionPatterns =
     (case performDryRun_tui w rootPath exclusionPatterns inclusionPatterns of
        (includedFiles, _, err) \<Rightarrow> (includedFiles, err))"


section \<open>RepoCache and ResolutionCoordinator\<close>

text \<open>
  The file system is an association list from path strings to nodes; paths are compared as
  strings (no links, no cleaning of \<^verbatim>\<open>.\<close> and \<^verbatim>\<open>..\<close>), and the empty path names
  nothing. The content type \<open>'b\<close> of a file is a parameter, as are the library and external
  functions of the record \<open>env\<close>: MD5 in hexadecimal, the JSON codec, \<^verbatim>\<open>url.Parse\<close>
  (giving the path component), \<^verbatim>\<open>git clone\<close> and the name \<^verbatim>\<open>os.MkdirTemp\<close> picks.
  The state also holds the paths that cannot be removed (\<open>pinned\<close>: the process lacks
  the permission), the log of file system and network operations (latest first), the
  lines printed, and the clock: \<open>clock s k\<close> is what the \<open>k\<close>-th call of \<^verbatim>\<open>time.Now\<close>
  returns, in nanoseconds. An operating system error is \<open>NotExist\<close> when
  \<^verbatim>\<open>os.IsNotExist\<close> holds of it, and \<open>OSError\<close> otherwise.
\<close>

datatype 'b node = Dir | File 'b

record CacheEntry =
  url :: string
  cached_at :: int
  repo_path :: string
  expires_at :: int

datatype io =
    Stat string | ReadFile string | Remove string | RemoveAll string | MkdirAll string
  | WriteFile string | MkdirTemp | Rename string string | GitClone string string

datatype msg =
    MsgNoSource | MsgBothSources | MsgProcessingLocal string | MsgCacheCheckFailed error
  | MsgUsingCached int string | MsgCloning string | MsgCacheMetadataFailed error

type_synonym 'b fs = "(string \<times> 'b node) list"

record 'b sys =
  nodes :: "'b fs"
  pinned :: "string list"
  iolog :: "io list"
  out :: "msg list"
  clock :: "nat \<Rightarrow> int"
  ticks :: nat

record 'b env =
  md5hex :: "string \<Rightarrow> string"
  Marshal :: "CacheEntry \<Rightarrow> error + 'b"
  Unmarshal :: "'b \<Rightarrow> error + CacheEntry"
  url_Parse :: "string \<Rightarrow> error + string"
  gitClone :: "string \<Rightarrow> string \<Rightarrow> 'b fs \<Rightarrow> error option \<times> 'b fs"
  tempName :: "'b fs \<Rightarrow> error + string"

definition node_at :: "'b sys \<Rightarrow> string \<Rightarrow> 'b node option" where
  "node_at s p = (if p = [] then None else map_of (nodes s) p)"

definition under :: "string \<Rightarrow> string \<Rightarrow> bool" where
  "under p q = (q = p \<or> prefix (p @ ''/'') q)"

definition del :: "(string \<Rightarrow> bool) \<Rightarrow> 'b fs \<Rightarrow> 'b fs" where
  "del P ns = filter (\<lambda>e. \<not> P (fst e)) ns"

definition put :: "string \<Rightarrow> 'b node \<Rightarrow> 'b fs \<Rightarrow> 'b fs" where
  "put p n ns = (p, n) # del (\<lambda>q. q = p) ns"

definition logio :: "io \<Rightarrow> 'b sys \<Rightarrow> 'b sys" where
  "logio op s = s\<lparr>iolog := op # iolog s\<rparr>"


text \<open>
  A path below a regular file cannot be looked up: the system call fails with
  \<^verbatim>\<open>ENOTDIR\<close>, which is no \<^verbatim>\<open>IsNotExist\<close> error.
\<close>

definition belowFile :: "'b sys \<Rightarrow> string \<Rightarrow> bool" where
  "belowFile s p =
     list_ex (\<lambda>e. fst e \<noteq> [] \<and> fst e \<noteq> p \<and> under (fst e) p \<and> snd e \<noteq> Dir) (nodes s)"

definition os_Stat :: "string \<Rightarrow> 'b sys \<Rightarrow> error option \<times> 'b sys" where
  "os_Stat p s =
     ((if belowFile s p then Some (OSError ''not a directory'')
       else if node_at s p = None then Some (NotExist p)
       else None), logio (Stat p) s)"

definition IsNotExist :: "error option \<Rightarrow> bool" where
  "IsNotExist err = (case err of Some (NotExist p) \<Rightarrow> True | _ \<Rightarrow> False)"

definition os_ReadFile :: "string \<Rightarrow> 'b sys \<Rightarrow> (error + 'b) \<times> 'b sys" where
  "os_ReadFile p s =
     ((if belowFile s p then Inl (OSError ''not a directory'')
       else (case node_at s p of
               None \<Rightarrow> Inl (NotExist p)
             | Some Dir \<Rightarrow> Inl (OSError ''is a directory'')
             | Some (File b) \<Rightarrow> Inr b)), logio (ReadFile p) s)"

text \<open>
  \<^verbatim>\<open>os.Remove\<close> deletes a file or an empty directory; it fails on a path that does not
  exist, on a pinned path and on a directory that is not empty.
\<close>

definition os_Remove :: "string \<Rightarrow> 'b sys \<Rightarrow> error option \<times> 'b sys" where
  "os_Remove p s =
     (if belowFile s p then (Some (OSError ''not a directory''), logio (Remove p) s)
      else (case node_at s p of
        None \<Rightarrow> (Some (NotExist p), logio (Remove p) s)
      | Some n \<Rightarrow>
          if p \<in> set (pinned s)
          then (Some (OSError ''permission denied''), logio (Remove p) s)
          else if n = Dir \<and> list_ex (\<lambda>e. fst e \<noteq> p \<and> under p (fst e)) (nodes s)
          then (Some (OSError ''directory not empty''), logio (Remove p) s)
          else (None, logio (Remove p) (s\<lparr>nodes := del (\<lambda>q. q = p) (nodes s)\<rparr>))))"

text \<open>
  \<^verbatim>\<open>os.RemoveAll\<close> deletes the path and everything below it that it can, and returns an
  error when something is left: a node stays when it is pinned or has a pinned node below
  it. The empty path is a no-op.
\<close>

definition stuck :: "'b sys \<Rightarrow> string \<Rightarrow> bool" where
  "stuck s q = list_ex (\<lambda>e. under q (fst e) \<and> fst e \<in> set (pinned s)) (nodes s)"

definition os_RemoveAll :: "string \<Rightarrow> 'b sys \<Rightarrow> error option \<times> 'b sys" where
  "os_RemoveAll p s =
     (if p = [] then (None, logio (RemoveAll p) s)
      else ((if list_ex (\<lambda>e. under p (fst e) \<and> stuck s (fst e)) (nodes s)
             then Some (OSError ''permission denied'') else None),
            logio (RemoveAll p) (s\<lparr>nodes := del (\<lambda>q. under p q \<and> \<not> stuck s q) (nodes s)\<rparr>)))"

definition os_MkdirAll :: "string \<Rightarrow> 'b sys \<Rightarrow> error option \<times> 'b sys" where
  "os_MkdirAll p s =
     (if belowFile s p then (Some (OSError ''not a directory''), logio (MkdirAll p) s)
      else case node_at s p of
        Some (File b) \<Rightarrow> (Some (OSError ''not a directory''), logio (MkdirAll p) s)
      | Some Dir \<Rightarrow> (None, logio (MkdirAll p) s)
      | None \<Rightarrow>
          if p = [] then (Some (NotExist p), logio (MkdirAll p) s)
          else (None, logio (MkdirAll p) (s\<lparr>nodes := put p Dir (nodes s)\<rparr>)))"

definition os_WriteFile :: "string \<Rightarrow> 'b \<Rightarrow> 'b sys \<Rightarrow> error option \<times> 'b sys" where
  "os_WriteFile p data s =
     (if p = [] then (Some (NotExist p), logio (WriteFile p) s)
      else if belowFile s p then (Some (OSError ''not a directory''), logio (WriteFile p) s)
      else (case node_at s p of
              Some Dir \<Rightarrow> (Some (OSError ''is a directory''), logio (WriteFile p) s)
            | _ \<Rightarrow> (None, logio (WriteFile p) (s\<lparr>nodes := put p (File data) (nodes s)\<rparr>))))"



definition time_Now :: "'b sys \<Rightarrow> int \<times> 'b sys" where
  "time_Now s = (clock s (ticks s), s\<lparr>ticks := Suc (ticks s)\<rparr>)"

definition minute :: int where
  "minute = 60 * 1000000000"

text \<open>
  \<^verbatim>\<open>filepath.Join\<close> of two elements: an empty element is ignored. The cleaning of the
  result (of \<^verbatim>\<open>.\<close>, \<^verbatim>\<open>..\<close> and doubled separators) is not modelled.
\<close>

definition Join :: "string \<Rightarrow> string \<Rightarrow> string" where
  "Join a b = (if b = [] then a else if a = [] then b else a @ ''/'' @ b)"

definition getTmpCacheDir :: string where
  "getTmpCacheDir = Join ''/tmp'' ''repo-concat-cache''"

definition urlToHash :: "'b env \<Rightarrow> string \<Rightarrow> string" where
  "urlToHash env githubURL = md5hex env githubURL"

type_synonym lookup = "string \<times> bool \<times> int \<times> error option"

definition getCachedRepo :: "'b env \<Rightarrow> string \<Rightarrow> 'b sys \<Rightarrow> lookup \<times> 'b sys" where
  "getCachedRepo env githubURL s =
     (let cacheDir = getTmpCacheDir;
          urlHash = urlToHash env githubURL;
          metadataPath = Join cacheDir (urlHash @ ''.json'');
          (err, s1) = os_Stat metadataPath s
      in if IsNotExist err then (([], False, 0, None), s1)
         else (let (r, s2) = os_ReadFile metadataPath s1
               in case r of
                    Inl err \<Rightarrow> (([], False, 0, Some err), s2)
                  | Inr data \<Rightarrow>
                     (case Unmarshal env data of
                        Inl err \<Rightarrow> (([], False, 0, Some err), s2)
                      | Inr entry \<Rightarrow>
                         (let (now, s3) = time_Now s2
                          in if now > expires_at entry
                             then (let (e1, s4) = os_Remove metadataPath s3;
                                       (e2, s5) = os_RemoveAll (repo_path entry) s4
                                   in (([], False, 0, None), s5))
                             else (let (err, s4) = os_Stat (repo_path entry) s3
                                   in if IsNotExist err
                                      then (let (e1, s5) = os_Remove metadataPath s4
                                            in (([], False, 0, None), s5))
                                      else ((repo_path entry, True, cached_at entry, None), s4))))))"

definition cacheRepo :: "'b env \<Rightarrow> string \<Rightarrow> string \<Rightarrow> 'b sys \<Rightarrow> error option \<times> 'b sys" where
  "cacheRepo env githubURL repoPath s =
     (let cacheDir = getTmpCacheDir;
          (e, s1) = os_MkdirAll cacheDir s
      in if e \<noteq> None then (e, s1)
         else (let urlHash = urlToHash env githubURL;
                   metadataPath = Join cacheDir (urlHash @ ''.json'');
                   (t1, s2) = time_Now s1;
                   (t2, s3) = time_Now s2;
                   entry = \<lparr>url = githubURL, cached_at = t1, repo_path = repoPath,
                            expires_at = t2 + 5 * minute\<rparr>
               in case Marshal env entry of
                    Inl err \<Rightarrow> (Some err, s3)
                  | Inr data \<Rightarrow> os_WriteFile metadataPath data s3))"

definition cloneRepository :: "'b env \<Rightarrow> string \<Rightarrow> string \<Rightarrow> 'b sys \<Rightarrow> error option \<times> 'b sys" where
  "cloneRepository env githubURL destDir s =
     (case gitClone env githubURL destDir (nodes s) of
        (e, ns) \<Rightarrow> (e, logio (GitClone githubURL destDir) (s\<lparr>nodes := ns\<rparr>)))"

definition Trim :: "string \<Rightarrow> char \<Rightarrow> string" where
  "Trim s c = rev (dropWhile (\<lambda>x. x = c) (rev (dropWhile (\<lambda>x. x = c) s)))"

definition extractRepoName :: "'b env \<Rightarrow> string \<Rightarrow> string" where
  "extractRepoName env githubURL =
     (case url_Parse env githubURL of
        Inl err \<Rightarrow>
          (let parts = Split githubURL (CHR ''/'')
           in if length parts > 0 then TrimSuffix (parts ! (length parts - 1)) ''.git''
              else ''repository'')
      | Inr path \<Rightarrow>
          (let parts = Split (Trim path (CHR ''/'')) (CHR ''/'')
           in if length parts \<ge> 2 then TrimSuffix (parts ! 1) ''.git''
              else ''repository''))"

record Config_tui =
  URL :: string
  Path :: string
  Include :: "string list"
  Exclude :: "string list"
  Output :: string
  EnableTUI :: bool

text \<open>Package \<^verbatim>\<open>tui\<close>: \<^verbatim>\<open>resolveRepositoryPath\<close>.\<close>

definition resolveRepositoryPath ::
  "'b env \<Rightarrow> Config_tui \<Rightarrow> 'b sys \<Rightarrow> (error + string) \<times> 'b sys" where
  "resolveRepositoryPath env config s =
     (if Path config \<noteq> [] then (Inr (Path config), s)
      else if URL config \<noteq> [] then
        (case getCachedRepo env (URL config) s of
           ((cachedPath, found, cachedAt, err), s1) \<Rightarrow>
             (case err of
                Some e \<Rightarrow> (Inl (CacheCheckFailed e), s1)
              | None \<Rightarrow>
                  if found then (Inr cachedPath, s1)
                  else (let repoName = extractRepoName env (URL config);
                            tempDir = getTmpCacheDir;
                            repoPath = Join tempDir repoName;
                            (e1, s2) = os_MkdirAll tempDir s1
                        in case e1 of
                             Some e \<Rightarrow> (Inl (TempDirFailed e), s2)
                           | None \<Rightarrow>
                              (let (e2, s3) = os_RemoveAll repoPath s2;
                                   (e3, s4) = cloneRepository env (URL config) tempDir s3
                               in case e3 of
                                    Some e \<Rightarrow> (Inl (CloneFailed e), s4)
                                  | None \<Rightarrow>
                                     (let (e4, s5) = cacheRepo env (URL config) repoPath s4
                                      in case e4 of
                                           Some e \<Rightarrow> (Inl (CacheFailed e), s5)
                                         | None \<Rightarrow> (Inr repoPath, s5))))))
      else (Inl NoSourceSpecified, s))"


text \<open>
  Package \<^verbatim>\<open>main\<close>: what \<^verbatim>\<open>main\<close> does with the parsed flags, and the first part of
  \<^verbatim>\<open>processRepository\<close>, up to the point where \<open>repoPath\<close> and \<open>shouldCleanup\<close> are
  settled (the scan, the concatenation and the output follow it).
\<close>

record Config_cli =
  githubURL :: string
  localPath :: string
  exclusions :: "string list"
  inclusions :: "string list"
  peek :: bool
  outputDir :: string
  tokenEst :: bool
  enableTUI :: bool

datatype action = RunTUI Config_tui | Exit1 msg | ProcessRepository Config_cli

definition main_cli :: "Config_cli \<Rightarrow> action" where
  "main_cli config =
     (if enableTUI config
      then RunTUI \<lparr>URL = githubURL config, Path = localPath config,
                   Include = inclusions config, Exclude = exclusions config,
                   Output = outputDir config, EnableTUI = True\<rparr>
      else if githubURL config = [] \<and> localPath config = [] then Exit1 MsgNoSource
      else if githubURL config \<noteq> [] \<and> localPath config \<noteq> [] then Exit1 MsgBothSources
      else ProcessRepository config)"





section \<open>An example cache\<close>

text \<open>
  A concrete environment for runs of the cache: file contents are either a well-formed
  metadata record or something that is no JSON, the clone creates the directory \<^verbatim>\<open>repo\<close>
  below its destination, and the clock advances by one second per reading.
\<close>

definition exampleEnv :: "CacheEntry option env" where
  "exampleEnv =
     \<lparr>md5hex = (\<lambda>u. ''9a0364b9e99bb480dd25e1f0284c8555''),
      Marshal = (\<lambda>e. Inr (Some e)),
      Unmarshal = (\<lambda>b. case b of None \<Rightarrow> Inl (JSONError ''invalid character'') | Some e \<Rightarrow> Inr e),
      url_Parse = (\<lambda>u. if prefix ''https://github.com'' u then Inr (drop 18 u)
                         else Inl (OSError ''parse'')),
      gitClone = (\<lambda>u dest ns. (None, put (dest @ ''/repo'') Dir ns)),
      tempName = (\<lambda>ns. Inr ''/tmp/repo-concat-1'')\<rparr>"

definition exampleURL :: string where
  "exampleURL = ''https://github.com/user/repo''"

definition exampleMeta :: string where
  "exampleMeta = ''/tmp/repo-concat-cache/9a0364b9e99bb480dd25e1f0284c8555.json''"

definition exampleDir :: string where
  "exampleDir = ''/tmp/repo-concat-cache/9a0364b9e99bb480dd25e1f0284c8555''"

definition exampleClock :: "nat \<Rightarrow> int" where
  "exampleClock k = 1000000000 * int k"

text \<open>The state with the given file system in which \<^verbatim>\<open>time.Now\<close> was called \<open>k\<close> times.\<close>

definition exampleSys :: "CacheEntry option fs \<Rightarrow> nat \<Rightarrow> CacheEntry option sys" where
  "exampleSys ns k = \<lparr>nodes = ns, pinned = [], iolog = [], out = [], clock = exampleClock,
                       ticks = k\<rparr>"






text \<open>The state after storing an existing checkout, and after storing a missing one.\<close>

definition storedSys :: "CacheEntry option sys" where
  "storedSys = snd (cacheRepo exampleEnv exampleURL exampleDir (exampleSys [(exampleDir, Dir)] 0))"

definition storedMissingSys :: "CacheEntry option sys" where
  "storedMissingSys = snd (cacheRepo exampleEnv exampleURL ''/nowhere'' (exampleSys [] 0))"

text \<open>The state after storing a path that lies below a regular file.\<close>

definition storedBelowFileSys :: "CacheEntry option sys" where
  "storedBelowFileSys =
     snd (cacheRepo exampleEnv exampleURL ''/etc/hosts/repo''
            (exampleSys [(''/etc/hosts'', File None)] 0))"

definition exampleConfig_tui :: "string \<Rightarrow> string \<Rightarrow> Config_tui" where
  "exampleConfig_tui u p = \<lparr>URL = u, Path = p, Include = [], Exclude = [], Output = ''.'',
                             EnableTUI = True\<rparr>"

definition exampleConfig_cli :: "string \<Rightarrow> string \<Rightarrow> Config_cli" where
  "exampleConfig_cli u p = \<lparr>githubURL = u, localPath = p, exclusions = [], inclusions = [],
                             peek = False, outputDir = ''.'', tokenEst = True,
                             enableTUI = False\<rparr>"


section \<open>An example tree\<close>

text \<open>
  A small world for concrete runs: the files of a directory \<^verbatim>\<open>/r\<close>, with
  \<^verbatim>\<open>filepath.Rel\<close> for paths below the root, a parameter for the entries the walk visits,
  and the regular expression engine above.
\<close>

definition exampleFile :: "string \<Rightarrow> osfile" where
  "exampleFile path =
     (if path = ''/r/a.go'' then Regular ''package main''
      else if path = ''/r/b.txt'' then Regular ''hello''
      else if path = ''/r/data.txt'' then Regular [CHR ''a'', CHR 0x00, CHR ''b'']
      else if path = ''/r/img.png'' then Regular ''PNG''
      else NoOpen)"

definition exampleRel :: "string \<Rightarrow> string \<Rightarrow> error + string" where
  "exampleRel root path =
     (if prefix (root @ ''/'') path then Inr (drop (Suc (length root)) path)
      else Inl (OSError ''Rel: cannot make path relative''))"

definition exampleWorld :: "visit list \<Rightarrow> world" where
  "exampleWorld vs = \<lparr>Walk = (\<lambda>root. vs), Rel = exampleRel, fileAt = exampleFile,
                       Compile = re_Compile\<rparr>"

definition brokenWalk :: "visit list" where
  "brokenWalk = [VDir ''/r'', VFile ''/r/a.go'', VFile ''/r/img.png'',
                 VErr ''/r/locked'' (OSError ''permission denied''), VFile ''/r/b.txt'']"

definition cleanWalk :: "visit list" where
  "cleanWalk = [VDir ''/r'', VFile ''/r/a.go'', VFile ''/r/b.txt'', VFile ''/r/data.txt'',
                VFile ''/r/img.png'']"


section \<open>The specification's notions\<close>

text \<open>The first path segment of a relative path: everything before the first separator.\<close>

definition firstSegment :: "string \<Rightarrow> string" where
  "firstSegment p = takeWhile (\<lambda>c. c \<noteq> CHR ''/'') p"

text \<open>
  The scan in the specification's words. An entry fails when the walk passes an error for
  it or, for a file whose path is made relative, when \<^verbatim>\<open>filepath.Rel\<close> fails (the
  terminal UI makes the path relative only after the file has passed the text test). The
  scan covers the entries before the first one that fails and returns that entry's error.
  A file is included when it is text, matches no exclusion pattern (the user's and the
  built-in ones), and matches an inclusion pattern if there is any; it is excluded
  otherwise.
\<close>

definition entryError_cli :: "world \<Rightarrow> string \<Rightarrow> visit \<Rightarrow> error option" where
  "entryError_cli w rootPath v =
     (case v of
        VErr path err \<Rightarrow> Some err
      | VDir path \<Rightarrow> None
      | VFile path \<Rightarrow> (case Rel w rootPath path of Inl err \<Rightarrow> Some err | Inr rel \<Rightarrow> None))"

definition entryError_tui :: "world \<Rightarrow> string \<Rightarrow> visit \<Rightarrow> error option" where
  "entryError_tui w rootPath v =
     (case v of
        VErr path err \<Rightarrow> Some err
      | VDir path \<Rightarrow> None
      | VFile path \<Rightarrow>
          if isTextFile_tui (fileAt w path)
          then (case Rel w rootPath path of Inl err \<Rightarrow> Some err | Inr rel \<Rightarrow> None)
          else None)"

definition beforeError :: "(visit \<Rightarrow> error option) \<Rightarrow> visit list \<Rightarrow> visit list" where
  "beforeError E vs = takeWhile (\<lambda>v. E v = None) vs"

definition firstError :: "(visit \<Rightarrow> error option) \<Rightarrow> visit list \<Rightarrow> error option" where
  "firstError E vs = (case dropWhile (\<lambda>v. E v = None) vs of [] \<Rightarrow> None | v # rest \<Rightarrow> E v)"

fun filesOf :: "visit list \<Rightarrow> string list" where
  "filesOf [] = []"
| "filesOf (VFile path # vs) = path # filesOf vs"
| "filesOf (VDir path # vs) = filesOf vs"
| "filesOf (VErr path err # vs) = filesOf vs"

definition included_cli :: "world \<Rightarrow> string \<Rightarrow> string list \<Rightarrow> string list \<Rightarrow> string \<Rightarrow> bool" where
  "included_cli w rootPath ex inc path =
     (case Rel w rootPath path of
        Inl err \<Rightarrow> False
      | Inr rel \<Rightarrow>
          isTextFile_cli (fileAt w path) \<and>
          \<not> list_ex (\<lambda>pattern. matchesPattern_cli (Compile w) pattern rel (Base path))
               (ex @ defaultExclusionPatterns) \<and>
          (inc = [] \<or> list_ex (\<lambda>pattern. matchesPattern_cli (Compile w) pattern rel (Base path)) inc))"

definition included_tui :: "world \<Rightarrow> string \<Rightarrow> string list \<Rightarrow> string list \<Rightarrow> string \<Rightarrow> bool" where
  "included_tui w rootPath ex inc path =
     (case Rel w rootPath path of
        Inl err \<Rightarrow> False
      | Inr rel \<Rightarrow>
          isTextFile_tui (fileAt w path) \<and>
          \<not> list_ex (\<lambda>pattern. matchesPattern_tui (Compile w) pattern rel (Base path))
               (defaultExclusionPatterns @ ex) \<and>
          (inc = [] \<or> list_ex (\<lambda>pattern. matchesPattern_tui (Compile w) pattern rel (Base path)) inc))"

text \<open>
  The glob translation in the specification's words: every character is translated on its
  own (\<^verbatim>\<open>*\<close> to \<^verbatim>\<open>.*\<close>, \<^verbatim>\<open>?\<close> to \<^verbatim>\<open>.\<close>, a regex metacharacter to itself behind a
  backslash, any other character to itself), and the result is anchored with \<^verbatim>\<open>^\<close> and
  \<^verbatim>\<open>$\<close> unless it begins, respectively ends, with \<^verbatim>\<open>.*\<close>.
\<close>

text \<open>The translation of one character after the first of the two replacements.\<close>

definition starChar :: "char \<Rightarrow> string" where
  "starChar c = (if c = CHR ''*'' then ''.*'' else if special c then [bsl, c] else [c])"

definition globChar :: "char \<Rightarrow> string" where
  "globChar c =
     (if c = CHR ''*'' then ''.*''
      else if c = CHR ''?'' then ''.''
      else if special c then [bsl, c]
      else [c])"

definition globToRegex_spec :: "string \<Rightarrow> string" where
  "globToRegex_spec glob =
     (let t = concat (map globChar glob)
      in (if prefix ''.*'' t then [] else ''^'') @ t @ (if suffix ''.*'' t then [] else ''$''))"

section \<open>Path patterns\<close>

lemma hd_Split: "hd (Split s c) = takeWhile (\<lambda>x. x \<noteq> c) s"
  by (induction s) (auto simp: Let_def)

lemma Split_nonempty: "Split s c \<noteq> []"
  by (induction s) (auto simp: Let_def)

lemma prefix_takeWhile_sep:
  "c \<notin> set X \<Longrightarrow> prefix X (takeWhile (\<lambda>x. x \<noteq> c) p) = prefix X p"
proof (induction p arbitrary: X)
  case Nil
  then show ?case by simp
next
  case (Cons a p)
  show ?case
  proof (cases X)
    case Nil
    then show ?thesis by simp
  next
    case (Cons x xs)
    with Cons.prems have "x \<noteq> c" "c \<notin> set xs" by auto
    with Cons.IH [of xs] Cons show ?thesis by auto
  qed
qed

lemma matchesPathPattern_cli_iff:
  "matchesPathPattern_cli (CHR ''/'' # X) p = prefix X (firstSegment p)"
  by (simp add: matchesPathPattern_cli_def isPathPattern_def HasPrefix_def TrimPrefix_def
      Let_def hd_Split Split_nonempty firstSegment_def)

lemma matchesPathPattern_tui_iff:
  assumes "CHR ''/'' \<notin> set X"
  shows "matchesPathPattern_tui (CHR ''/'' # X) p = prefix X (firstSegment p)"
proof -
  have "\<not> suffix ''/'' X"
    using assms by (auto simp: suffix_def)
  then show ?thesis
    using assms
    by (simp add: matchesPathPattern_tui_def HasPrefix_def HasSuffix_def TrimPrefix_def
        Let_def firstSegment_def prefix_takeWhile_sep)
qed

text \<open>
  Claim C2, as amended. For the command line program, a path pattern \<^verbatim>\<open>/X\<close> matches a
  relative path exactly when the path's first segment has \<open>X\<close> as a prefix, for every \<open>X\<close>.
  For the terminal UI the same holds whenever \<open>X\<close> contains no separator; there the pattern
  is compared with the whole relative path, so an \<open>X\<close> with a separator can reach beyond
  the first segment.
\<close>

theorem pathPrefix_first_segment:
  "matchesPattern_cli C (CHR ''/'' # X) p baseName = prefix X (firstSegment p) \<and>
   (CHR ''/'' \<notin> set X \<longrightarrow>
      matchesPattern_tui C (CHR ''/'' # X) p baseName = prefix X (firstSegment p))"
  by (simp add: matchesPattern_cli_def matchesPattern_tui_def isPathPattern_def HasPrefix_def
      matchesPathPattern_cli_iff matchesPathPattern_tui_iff)

text \<open>The examples of the claim: \<^verbatim>\<open>/util\<close> against three paths, in both programs.\<close>

theorem pathPrefix_first_segment_witness:
  "CHR ''/'' \<notin> set ''util'' \<and>
   matchesPattern_cli re_Compile ''/util'' ''utils/a.go'' ''a.go'' \<and>
   matchesPattern_tui re_Compile ''/util'' ''utils/a.go'' ''a.go'' \<and>
   matchesPattern_cli re_Compile ''/util'' ''utilities/x'' ''x'' \<and>
   matchesPattern_tui re_Compile ''/util'' ''utilities/x'' ''x'' \<and>
   \<not> matchesPattern_cli re_Compile ''/util'' ''src/util.go'' ''util.go'' \<and>
   \<not> matchesPattern_tui re_Compile ''/util'' ''src/util.go'' ''util.go''"
  using pathPrefix_first_segment [of re_Compile "''util''" "''utils/a.go''" "''a.go''"]
    pathPrefix_first_segment [of re_Compile "''util''" "''utilities/x''" "''x''"]
    pathPrefix_first_segment [of re_Compile "''util''" "''src/util.go''" "''util.go''"]
  by (simp add: firstSegment_def)

text \<open>
  In the terminal UI the pattern \<^verbatim>\<open>/src/util\<close> matches \<^verbatim>\<open>src/utils/a.go\<close>, whose first
  segment \<^verbatim>\<open>src\<close> does not have \<^verbatim>\<open>src/util\<close> as a prefix.
\<close>

theorem pathPrefix_tui_counterexample:
  "matchesPattern_tui re_Compile ''/src/util'' ''src/utils/a.go'' ''a.go'' \<and>
   \<not> prefix ''src/util'' (firstSegment ''src/utils/a.go'')"
  by (simp add: matchesPattern_tui_def isPathPattern_def HasPrefix_def HasSuffix_def
      matchesPathPattern_tui_def TrimPrefix_def Let_def firstSegment_def suffix_def)


section \<open>Patterns that do not compile\<close>

text \<open>
  Claim C10, as amended. \<open>matchesPattern\<close> is a total function returning a truth value,
  and a pattern that is no path pattern matches no path and no base name when the
  expression handed to \<^verbatim>\<open>regexp.Compile\<close> is rejected. That expression is the pattern
  itself in the command line program; in the terminal UI it is the pattern itself when the
  pattern holds neither \<^verbatim>\<open>*\<close> nor \<^verbatim>\<open>?\<close>, and the glob translation of the pattern
  otherwise.
\<close>

theorem invalid_pattern_matches_nothing:
  "(\<not> isPathPattern pattern \<and> C pattern = None \<longrightarrow>
      \<not> matchesPattern_cli C pattern relativePath baseName) \<and>
   (\<not> isPathPattern pattern \<and> CHR ''*'' \<notin> set pattern \<and> CHR ''?'' \<notin> set pattern \<and>
    C pattern = None \<longrightarrow>
      \<not> matchesPattern_tui C pattern relativePath baseName) \<and>
   (\<not> isPathPattern pattern \<and> (CHR ''*'' \<in> set pattern \<or> CHR ''?'' \<in> set pattern) \<and>
    C (globToRegex pattern) = None \<longrightarrow>
      \<not> matchesPattern_tui C pattern relativePath baseName)"
  by (simp add: matchesPattern_cli_def matchesPattern_tui_def regexPattern_tui_def Contains_def)

lemma parse_unclosed: "re_parse ''a(b'' = Bad"
  by code_simp

lemma compile_unclosed: "re_Compile ''a(b'' = None"
  by (simp add: re_Compile_def parse_unclosed)

lemma parse_bad_byte: "re_parse (globToRegex [CHR 0xFF, CHR ''*'']) = Bad"
  by code_simp

lemma compile_bad_byte: "re_Compile (globToRegex [CHR 0xFF, CHR ''*'']) = None"
  by (simp add: re_Compile_def parse_bad_byte)

theorem invalid_pattern_matches_nothing_witness:
  "\<not> isPathPattern ''a(b'' \<and> CHR ''*'' \<notin> set ''a(b'' \<and> CHR ''?'' \<notin> set ''a(b'' \<and>
   re_Compile ''a(b'' = None \<and>
   \<not> matchesPattern_cli re_Compile ''a(b'' ''a(b'' ''a(b'' \<and>
   \<not> matchesPattern_tui re_Compile ''a(b'' ''a(b'' ''a(b'' \<and>
   \<not> isPathPattern [CHR 0xFF, CHR ''*''] \<and> CHR ''*'' \<in> set [CHR 0xFF, CHR ''*''] \<and>
   re_Compile (globToRegex [CHR 0xFF, CHR ''*'']) = None \<and>
   \<not> matchesPattern_tui re_Compile [CHR 0xFF, CHR ''*''] ''main.go'' ''main.go''"
  using invalid_pattern_matches_nothing [of "''a(b''" re_Compile "''a(b''" "''a(b''"]
    invalid_pattern_matches_nothing [of "[CHR 0xFF, CHR ''*'']" re_Compile "''main.go''" "''main.go''"]
  by (simp add: isPathPattern_def HasPrefix_def compile_unclosed compile_bad_byte)

text \<open>
  The pattern \<^verbatim>\<open>*.go\<close> does not compile as a regular expression, and in the terminal
  UI it matches \<^verbatim>\<open>main.go\<close>: what is compiled there is its glob translation.
\<close>

theorem glob_fails_to_compile_tui_counterexample:
  "\<not> isPathPattern ''*.go'' \<and> re_parse ''*.go'' = Bad \<and> re_Compile ''*.go'' = None \<and>
   matchesPattern_tui re_Compile ''*.go'' ''main.go'' ''main.go''"
  by code_simp


section \<open>The two scan modes\<close>

lemma runWalk_modes_cli:
  "fst (runWalk (dryRunFn_cli w r ax inc) vs (i, x)) = fst (runWalk (collectFn_cli w r ax inc) vs i) \<and>
   fst (snd (runWalk (dryRunFn_cli w r ax inc) vs (i, x))) = snd (runWalk (collectFn_cli w r ax inc) vs i)"
proof (induction vs arbitrary: i x)
  case Nil
  then show ?case by simp
next
  case (Cons v vs)
  show ?case
  proof (cases v)
    case (VErr p e)
    then show ?thesis by (simp add: dryRunFn_cli_def collectFn_cli_def)
  next
    case (VDir p)
    then show ?thesis using Cons.IH by (simp add: dryRunFn_cli_def collectFn_cli_def)
  next
    case (VFile p)
    show ?thesis
    proof (cases "Rel w r p")
      case (Inl e)
      with VFile show ?thesis by (simp add: dryRunFn_cli_def collectFn_cli_def)
    next
      case (Inr rel)
      with VFile show ?thesis using Cons.IH
        by (simp add: dryRunFn_cli_def collectFn_cli_def)
    qed
  qed
qed

text \<open>
  Claim C1. On the same world, root and pattern lists, the collect scan returns the same
  included files (and the same error) as the dry run; this holds for the command line
  program, where the two scans are written out separately and test the file content at
  different points, and for the terminal UI, where collecting is the dry run without its
  excluded list.
\<close>

theorem mode_invariance:
  "fst (collectFiles_cli w rootPath ex inc) = fst (performDryRun_cli w rootPath ex inc) \<and>
   snd (collectFiles_cli w rootPath ex inc) = snd (snd (performDryRun_cli w rootPath ex inc)) \<and>
   fst (collectFiles_tui w rootPath ex inc) = fst (performDryRun_tui w rootPath ex inc) \<and>
   snd (collectFiles_tui w rootPath ex inc) = snd (snd (performDryRun_tui w rootPath ex inc))"
proof -
  let ?d = "runWalk (dryRunFn_cli w rootPath (ex @ defaultExclusionPatterns) inc) (Walk w rootPath) ([], [])"
  let ?c = "runWalk (collectFn_cli w rootPath (ex @ defaultExclusionPatterns) inc) (Walk w rootPath) []"
  have m: "fst ?d = fst ?c" "fst (snd ?d) = snd ?c"
    using runWalk_modes_cli [of w rootPath "ex @ defaultExclusionPatterns" inc "Walk w rootPath" "[]" "[]"]
    by simp_all
  have cli: "fst (collectFiles_cli w rootPath ex inc) = fst (performDryRun_cli w rootPath ex inc) \<and>
   snd (collectFiles_cli w rootPath ex inc) = snd (snd (performDryRun_cli w rootPath ex inc))"
    using m
    by (cases ?d; cases ?c)
       (auto simp: collectFiles_cli_def performDryRun_cli_def Let_def split: option.splits prod.splits)
  have tui: "fst (collectFiles_tui w rootPath ex inc) = fst (performDryRun_tui w rootPath ex inc) \<and>
   snd (collectFiles_tui w rootPath ex inc) = snd (snd (performDryRun_tui w rootPath ex inc))"
    by (simp add: collectFiles_tui_def split: prod.splits)
  from cli tui show ?thesis by simp
qed

section \<open>Walk errors\<close>

lemma runWalk_reports:
  assumes "VErr p e \<in> set vs" and "\<And>acc p e. fst (fn acc (VErr p e)) \<noteq> None"
  shows "fst (runWalk fn vs acc) \<noteq> None"
  using assms(1)
proof (induction vs arbitrary: acc)
  case Nil
  then show ?case by simp
next
  case (Cons v vs)
  show ?case
  proof (cases "fn acc v")
    case (Pair r a)
    show ?thesis
    proof (cases r)
      case None
      with Pair assms(2) [of acc] have "v \<noteq> VErr p e" by (metis fst_conv)
      with Cons.prems have "VErr p e \<in> set vs" by simp
      from Cons.IH [OF this] show ?thesis using Pair None by simp
    next
      case (Some e')
      with Pair show ?thesis by simp
    qed
  qed
qed

lemma dryRunFn_cli_VErr: "fst (dryRunFn_cli w r ax inc acc (VErr p e)) \<noteq> None"
  by (cases acc) (simp add: dryRunFn_cli_def)

lemma dryRunFn_tui_VErr: "fst (dryRunFn_tui w r ax inc acc (VErr p e)) \<noteq> None"
  by (cases acc) (simp add: dryRunFn_tui_def)

lemma performDryRun_cli_reports:
  assumes e: "VErr p e \<in> set (Walk w rootPath)"
  shows "snd (snd (performDryRun_cli w rootPath ex inc)) \<noteq> None"
proof -
  let ?fn = "dryRunFn_cli w rootPath (ex @ defaultExclusionPatterns) inc"
  have "fst (runWalk ?fn (Walk w rootPath) ([], [])) \<noteq> None"
    by (rule runWalk_reports [OF e]) (rule dryRunFn_cli_VErr)
  then show ?thesis
    by (auto simp: performDryRun_cli_def Let_def split: option.splits prod.splits)
qed

lemma performDryRun_tui_reports:
  assumes e: "VErr p e \<in> set (Walk w rootPath)"
  shows "snd (snd (performDryRun_tui w rootPath ex inc)) \<noteq> None"
proof -
  let ?fn = "dryRunFn_tui w rootPath (defaultExclusionPatterns @ ex) inc"
  have "fst (runWalk ?fn (Walk w rootPath) ([], [])) \<noteq> None"
    by (rule runWalk_reports [OF e]) (rule dryRunFn_tui_VErr)
  then show ?thesis
    by (auto simp: performDryRun_tui_def Let_def split: option.splits prod.splits)
qed

lemma scan_simps:
  "beforeError E [] = []" "firstError E [] = None"
  "E v = None \<Longrightarrow> beforeError E (v # vs) = v # beforeError E vs"
  "E v = None \<Longrightarrow> firstError E (v # vs) = firstError E vs"
  "E v = Some e \<Longrightarrow> beforeError E (v # vs) = []"
  "E v = Some e \<Longrightarrow> firstError E (v # vs) = Some e"
  by (simp_all add: beforeError_def firstError_def)

lemma runWalk_dry_cli:
  "runWalk (dryRunFn_cli w r (ex @ defaultExclusionPatterns) inc) vs (i, x)
     = (firstError (entryError_cli w r) vs,
        (i @ filter (included_cli w r ex inc) (filesOf (beforeError (entryError_cli w r) vs)),
         x @ filter (\<lambda>p. \<not> included_cli w r ex inc p)
               (filesOf (beforeError (entryError_cli w r) vs))))"
proof (induction vs arbitrary: i x)
  case Nil
  then show ?case by (simp add: scan_simps)
next
  case (Cons v vs)
  show ?case
  proof (cases v)
    case (VErr p e)
    then have "entryError_cli w r v = Some e" by (simp add: entryError_cli_def)
    with VErr show ?thesis by (simp add: scan_simps dryRunFn_cli_def)
  next
    case (VDir p)
    then have "entryError_cli w r v = None" by (simp add: entryError_cli_def)
    with VDir Cons.IH show ?thesis by (simp add: scan_simps dryRunFn_cli_def)
  next
    case (VFile p)
    show ?thesis
    proof (cases "Rel w r p")
      case (Inl e)
      with VFile have "entryError_cli w r v = Some e" by (simp add: entryError_cli_def)
      with VFile Inl show ?thesis by (simp add: scan_simps dryRunFn_cli_def)
    next
      case (Inr rel)
      with VFile have "entryError_cli w r v = None" by (simp add: entryError_cli_def)
      with VFile Inr Cons.IH show ?thesis
        by (simp add: scan_simps dryRunFn_cli_def included_cli_def)
    qed
  qed
qed

lemma runWalk_dry_tui:
  "runWalk (dryRunFn_tui w r (defaultExclusionPatterns @ ex) inc) vs (i, x)
     = (firstError (entryError_tui w r) vs,
        (i @ filter (included_tui w r ex inc) (filesOf (beforeError (entryError_tui w r) vs)),
         x @ filter (\<lambda>p. \<not> included_tui w r ex inc p)
               (filesOf (beforeError (entryError_tui w r) vs))))"
proof (induction vs arbitrary: i x)
  case Nil
  then show ?case by (simp add: scan_simps)
next
  case (Cons v vs)
  show ?case
  proof (cases v)
    case (VErr p e)
    then have "entryError_tui w r v = Some e" by (simp add: entryError_tui_def)
    with VErr show ?thesis by (simp add: scan_simps dryRunFn_tui_def)
  next
    case (VDir p)
    then have "entryError_tui w r v = None" by (simp add: entryError_tui_def)
    with VDir Cons.IH show ?thesis by (simp add: scan_simps dryRunFn_tui_def)
  next
    case (VFile p)
    show ?thesis
    proof (cases "isTextFile_tui (fileAt w p)")
      case False
      with VFile have "entryError_tui w r v = None" by (simp add: entryError_tui_def)
      with VFile False Cons.IH show ?thesis
        by (simp add: scan_simps dryRunFn_tui_def included_tui_def split: sum.splits)
    next
      case True
      show ?thesis
      proof (cases "Rel w r p")
        case (Inl e)
        with VFile True have "entryError_tui w r v = Some e" by (simp add: entryError_tui_def)
        with VFile True Inl show ?thesis by (simp add: scan_simps dryRunFn_tui_def)
      next
        case (Inr rel)
        with VFile True have "entryError_tui w r v = None" by (simp add: entryError_tui_def)
        with VFile True Inr Cons.IH show ?thesis
          by (simp add: scan_simps dryRunFn_tui_def included_tui_def Let_def)
      qed
    qed
  qed
qed

lemma firstError_reports:
  assumes "VErr p e \<in> set vs" and "\<And>p e. E (VErr p e) \<noteq> None"
  shows "firstError E vs \<noteq> None"
  using assms(1)
proof (induction vs)
  case Nil
  then show ?case by simp
next
  case (Cons v vs)
  show ?case
  proof (cases "E v")
    case None
    with assms(2) [of p e] have "v \<noteq> VErr p e" by metis
    with Cons None show ?thesis by (simp add: scan_simps)
  next
    case (Some e')
    then show ?thesis by (simp add: scan_simps)
  qed
qed

lemma entryError_VErr:
  "entryError_cli w r (VErr p e) \<noteq> None" "entryError_tui w r (VErr p e) \<noteq> None"
  by (simp_all add: entryError_cli_def entryError_tui_def)


section \<open>Binary files\<close>

lemma noNullBelow_iff:
  "noNullBelow buffer i n = (\<forall>j. i \<le> j \<and> j < n \<longrightarrow> buffer ! j \<noteq> CHR 0x00)"
proof (induction buffer i n rule: noNullBelow.induct)
  case (1 buffer i n)
  show ?case
  proof (cases "i < n")
    case False
    then show ?thesis by (subst noNullBelow.simps) auto
  next
    case True
    show ?thesis
    proof (cases "buffer ! i = CHR 0x00")
      case z: True
      with True show ?thesis by (subst noNullBelow.simps) auto
    next
      case nz: False
      have "noNullBelow buffer i n = noNullBelow buffer (Suc i) n"
        using True nz by (subst noNullBelow.simps) simp
      also have "\<dots> = (\<forall>j. Suc i \<le> j \<and> j < n \<longrightarrow> buffer ! j \<noteq> CHR 0x00)"
        using "1.IH" [OF True nz] .
      also have "\<dots> = (\<forall>j. i \<le> j \<and> j < n \<longrightarrow> buffer ! j \<noteq> CHR 0x00)"
        using nz by (metis Suc_leI le_neq_implies_less Suc_leD)
      finally show ?thesis .
    qed
  qed
qed

lemma Read_Regular_null:
  assumes "CHR 0x00 \<in> set (take k bs)"
  shows "\<exists>buffer n. Read (Regular bs) k = (buffer, n, None) \<and> 0 < n \<and>
           \<not> noNullBelow buffer 0 n"
proof -
  let ?n = "min k (length bs)"
  let ?buffer = "take ?n bs @ replicate (k - ?n) (CHR 0x00)"
  have tk: "take ?n bs = take k bs" by (simp add: min_def)
  from assms obtain j where j: "j < length (take k bs)" "take k bs ! j = CHR 0x00"
    by (auto simp: in_set_conv_nth)
  then have jn: "j < ?n" by simp
  then have pos: "0 < ?n" by linarith
  have "?buffer ! j = take k bs ! j"
    using j(1) tk by (simp add: nth_append)
  with j(2) have "?buffer ! j = CHR 0x00" by simp
  with jn have nn: "\<not> noNullBelow ?buffer 0 ?n"
    unfolding noNullBelow_iff by blast
  have "Read (Regular bs) k = (?buffer, ?n, None)"
    using pos by (simp add: Read_def Let_def)
  with pos nn show ?thesis by blast
qed

lemma null_not_text:
  assumes "CHR 0x00 \<in> set (take 512 bs)"
  shows "\<not> isTextFile_cli (Regular bs)" and "\<not> isTextFile_tui (Regular bs)"
proof -
  from Read_Regular_null [OF assms] obtain buffer n where
    r: "Read (Regular bs) 512 = (buffer, n, None)" "0 < n" "\<not> noNullBelow buffer 0 n"
    by blast
  show "\<not> isTextFile_cli (Regular bs)" using r by (simp add: isTextFile_cli_def)
  show "\<not> isTextFile_tui (Regular bs)" using r by (simp add: isTextFile_tui_def)
qed

lemma dryRunFn_cli_step:
  assumes "dryRunFn_cli w r ax inc (i, x) v = (e, (i1, x1))"
  shows "set x \<subseteq> set x1"
    and "\<not> isTextFile_cli (fileAt w p) \<Longrightarrow> p \<notin> set i \<Longrightarrow> p \<notin> set i1"
    and "e = None \<Longrightarrow> v = VFile p \<Longrightarrow> \<not> isTextFile_cli (fileAt w p) \<Longrightarrow> p \<in> set x1"
  using assms
  by (cases v; auto simp: dryRunFn_cli_def split: sum.splits if_splits)+

lemma dryRunFn_tui_step:
  assumes "dryRunFn_tui w r ax inc (i, x) v = (e, (i1, x1))"
  shows "set x \<subseteq> set x1"
    and "\<not> isTextFile_tui (fileAt w p) \<Longrightarrow> p \<notin> set i \<Longrightarrow> p \<notin> set i1"
    and "e = None \<Longrightarrow> v = VFile p \<Longrightarrow> \<not> isTextFile_tui (fileAt w p) \<Longrightarrow> p \<in> set x1"
  using assms
  by (cases v; auto simp: dryRunFn_tui_def Let_def split: sum.splits if_splits)+

lemma runWalk_binary:
  assumes step1: "\<And>i x v e i1 x1. fn (i, x) v = (e, (i1, x1)) \<Longrightarrow> set x \<subseteq> set x1"
    and step2: "\<And>i x v e i1 x1. fn (i, x) v = (e, (i1, x1)) \<Longrightarrow> p \<notin> set i \<Longrightarrow> p \<notin> set i1"
    and step3: "\<And>i x e i1 x1. fn (i, x) (VFile p) = (None, (i1, x1)) \<Longrightarrow> p \<in> set x1"
    and run: "runWalk fn vs (i, x) = (e, (i', x'))"
  shows "(p \<notin> set i \<longrightarrow> p \<notin> set i') \<and>
         (e = None \<and> (VFile p \<in> set vs \<or> p \<in> set x) \<longrightarrow> p \<in> set x')"
  using run
proof (induction vs arbitrary: i x)
  case Nil
  then show ?case by auto
next
  case (Cons v vs)
  obtain r i1 x1 where f: "fn (i, x) v = (r, (i1, x1))" by (metis surj_pair)
  show ?case
  proof (cases r)
    case (Some err)
    with f Cons.prems have "e = Some err" "i' = i1" by simp_all
    with step2 [OF f] show ?thesis by simp
  next
    case None
    with f Cons.prems have rest: "runWalk fn vs (i1, x1) = (e, (i', x'))" by simp
    note ih = Cons.IH [OF rest]
    have a: "p \<notin> set i \<longrightarrow> p \<notin> set i'" using step2 [OF f] ih by blast
    have b: "e = None \<and> (VFile p \<in> set (v # vs) \<or> p \<in> set x) \<longrightarrow> p \<in> set x'"
    proof
      assume h: "e = None \<and> (VFile p \<in> set (v # vs) \<or> p \<in> set x)"
      then consider "v = VFile p" | "VFile p \<in> set vs" | "p \<in> set x" by auto
      then have "VFile p \<in> set vs \<or> p \<in> set x1"
      proof cases
        case 1
        with f None step3 show ?thesis by blast
      next
        case 2
        then show ?thesis by simp
      next
        case 3
        with step1 [OF f] show ?thesis by blast
      qed
      with ih h show "p \<in> set x'" by blast
    qed
    from a b show ?thesis by simp
  qed
qed

lemma performDryRun_cli_binary:
  assumes nt: "\<not> isTextFile_cli (fileAt w p)"
  shows "p \<notin> set (fst (performDryRun_cli w root ex inc))"
    and "VFile p \<in> set (Walk w root) \<Longrightarrow> snd (snd (performDryRun_cli w root ex inc)) = None
         \<Longrightarrow> p \<in> set (fst (snd (performDryRun_cli w root ex inc)))"
proof -
  let ?fn = "dryRunFn_cli w root (ex @ defaultExclusionPatterns) inc"
  obtain e i' x' where run: "runWalk ?fn (Walk w root) ([], []) = (e, (i', x'))"
    by (metis surj_pair)
  have k: "(p \<notin> set [] \<longrightarrow> p \<notin> set i') \<and>
           (e = None \<and> (VFile p \<in> set (Walk w root) \<or> p \<in> set []) \<longrightarrow> p \<in> set x')"
  proof (rule runWalk_binary [where fn = ?fn, OF _ _ _ run])
    show "set x \<subseteq> set x1" if "?fn (i, x) v = (e, (i1, x1))" for i x v e i1 x1
      using that by (rule dryRunFn_cli_step(1))
    show "p \<notin> set i1" if "?fn (i, x) v = (e, (i1, x1))" "p \<notin> set i" for i x v e i1 x1
      using that(1) nt that(2) by (rule dryRunFn_cli_step(2))
    show "p \<in> set x1" if "?fn (i, x) (VFile p) = (None, (i1, x1))" for i x e i1 x1
      using that refl refl nt by (rule dryRunFn_cli_step(3))
  qed
  show "p \<notin> set (fst (performDryRun_cli w root ex inc))"
    using k run by (auto simp: performDryRun_cli_def split: option.splits)
  show "p \<in> set (fst (snd (performDryRun_cli w root ex inc)))"
    if "VFile p \<in> set (Walk w root)" "snd (snd (performDryRun_cli w root ex inc)) = None"
    using k run that by (auto simp: performDryRun_cli_def split: option.splits)
qed

lemma performDryRun_tui_binary:
  assumes nt: "\<not> isTextFile_tui (fileAt w p)"
  shows "p \<notin> set (fst (performDryRun_tui w root ex inc))"
    and "VFile p \<in> set (Walk w root) \<Longrightarrow> snd (snd (performDryRun_tui w root ex inc)) = None
         \<Longrightarrow> p \<in> set (fst (snd (performDryRun_tui w root ex inc)))"
proof -
  let ?fn = "dryRunFn_tui w root (defaultExclusionPatterns @ ex) inc"
  obtain e i' x' where run: "runWalk ?fn (Walk w root) ([], []) = (e, (i', x'))"
    by (metis surj_pair)
  have k: "(p \<notin> set [] \<longrightarrow> p \<notin> set i') \<and>
           (e = None \<and> (VFile p \<in> set (Walk w root) \<or> p \<in> set []) \<longrightarrow> p \<in> set x')"
  proof (rule runWalk_binary [where fn = ?fn, OF _ _ _ run])
    show "set x \<subseteq> set x1" if "?fn (i, x) v = (e, (i1, x1))" for i x v e i1 x1
      using that by (rule dryRunFn_tui_step(1))
    show "p \<notin> set i1" if "?fn (i, x) v = (e, (i1, x1))" "p \<notin> set i" for i x v e i1 x1
      using that(1) nt that(2) by (rule dryRunFn_tui_step(2))
    show "p \<in> set x1" if "?fn (i, x) (VFile p) = (None, (i1, x1))" for i x e i1 x1
      using that refl refl nt by (rule dryRunFn_tui_step(3))
  qed
  show "p \<notin> set (fst (performDryRun_tui w root ex inc))"
    using k run by (auto simp: performDryRun_tui_def split: option.splits)
  show "p \<in> set (fst (snd (performDryRun_tui w root ex inc)))"
    if "VFile p \<in> set (Walk w root)" "snd (snd (performDryRun_tui w root ex inc)) = None"
    using k run that by (auto simp: performDryRun_tui_def split: option.splits)
qed

section \<open>Walk errors: what the scan returns\<close>

text \<open>
  Claim C5, as amended. When the walk reports an error on an entry, the dry run returns an
  error, in both programs. With valid patterns the scan stops at the first entry that
  fails and returns that entry's error; the included and excluded lists that come back
  with the error are not cleared: they are exactly the classification of the files among
  the entries visited before the failing one. The callers in the repository drop the
  lists when the error is set.
\<close>

theorem walk_error_aborts:
  assumes "VErr p e \<in> set (Walk w rootPath)"
  shows "snd (snd (performDryRun_cli w rootPath ex inc)) \<noteq> None \<and>
         snd (snd (performDryRun_tui w rootPath ex inc)) \<noteq> None \<and>
         firstError (entryError_cli w rootPath) (Walk w rootPath) \<noteq> None \<and>
         firstError (entryError_tui w rootPath) (Walk w rootPath) \<noteq> None \<and>
         (firstInvalid_cli (Compile w) ex = None \<and> firstInvalid_cli (Compile w) inc = None \<longrightarrow>
            performDryRun_cli w rootPath ex inc =
              (filter (included_cli w rootPath ex inc)
                 (filesOf (beforeError (entryError_cli w rootPath) (Walk w rootPath))),
               filter (\<lambda>path. \<not> included_cli w rootPath ex inc path)
                 (filesOf (beforeError (entryError_cli w rootPath) (Walk w rootPath))),
               firstError (entryError_cli w rootPath) (Walk w rootPath))) \<and>
         (firstInvalid_tui (Compile w) ex = None \<and> firstInvalid_tui (Compile w) inc = None \<longrightarrow>
            performDryRun_tui w rootPath ex inc =
              (filter (included_tui w rootPath ex inc)
                 (filesOf (beforeError (entryError_tui w rootPath) (Walk w rootPath))),
               filter (\<lambda>path. \<not> included_tui w rootPath ex inc path)
                 (filesOf (beforeError (entryError_tui w rootPath) (Walk w rootPath))),
               firstError (entryError_tui w rootPath) (Walk w rootPath)))"
proof -
  have a: "firstError (entryError_cli w rootPath) (Walk w rootPath) \<noteq> None"
    by (rule firstError_reports [OF assms]) (rule entryError_VErr)
  have b: "firstError (entryError_tui w rootPath) (Walk w rootPath) \<noteq> None"
    by (rule firstError_reports [OF assms]) (rule entryError_VErr)
  have c: "performDryRun_cli w rootPath ex inc =
              (filter (included_cli w rootPath ex inc)
                 (filesOf (beforeError (entryError_cli w rootPath) (Walk w rootPath))),
               filter (\<lambda>path. \<not> included_cli w rootPath ex inc path)
                 (filesOf (beforeError (entryError_cli w rootPath) (Walk w rootPath))),
               firstError (entryError_cli w rootPath) (Walk w rootPath))"
    if "firstInvalid_cli (Compile w) ex = None" "firstInvalid_cli (Compile w) inc = None"
    using that by (simp add: performDryRun_cli_def runWalk_dry_cli)
  have d: "performDryRun_tui w rootPath ex inc =
              (filter (included_tui w rootPath ex inc)
                 (filesOf (beforeError (entryError_tui w rootPath) (Walk w rootPath))),
               filter (\<lambda>path. \<not> included_tui w rootPath ex inc path)
                 (filesOf (beforeError (entryError_tui w rootPath) (Walk w rootPath))),
               firstError (entryError_tui w rootPath) (Walk w rootPath))"
    if "firstInvalid_tui (Compile w) ex = None" "firstInvalid_tui (Compile w) inc = None"
    using that by (simp add: performDryRun_tui_def runWalk_dry_tui)
  from performDryRun_cli_reports [OF assms] performDryRun_tui_reports [OF assms] a b c d
  show ?thesis by blast
qed

lemma brokenWalk_has_error:
  "VErr ''/r/locked'' (OSError ''permission denied'') \<in> set (Walk (exampleWorld brokenWalk) ''/r'')"
  by (simp add: exampleWorld_def brokenWalk_def)

lemma no_patterns_valid:
  "firstInvalid_cli C [] = None" "firstInvalid_tui C [] = None"
  by (simp_all add: firstInvalid_cli_def firstInvalid_tui_def)

lemma broken_prefix:
  "beforeError (entryError_cli (exampleWorld brokenWalk) ''/r'') (Walk (exampleWorld brokenWalk) ''/r'')
     = [VDir ''/r'', VFile ''/r/a.go'', VFile ''/r/img.png'']"
  by code_simp

lemma broken_cli:
  "filter (included_cli (exampleWorld brokenWalk) ''/r'' [] [])
     (filesOf (beforeError (entryError_cli (exampleWorld brokenWalk) ''/r'')
        (Walk (exampleWorld brokenWalk) ''/r''))) = [''/r/a.go'']"
  "filter (\<lambda>path. \<not> included_cli (exampleWorld brokenWalk) ''/r'' [] [] path)
     (filesOf (beforeError (entryError_cli (exampleWorld brokenWalk) ''/r'')
        (Walk (exampleWorld brokenWalk) ''/r''))) = [''/r/img.png'']"
  "firstError (entryError_cli (exampleWorld brokenWalk) ''/r'') (Walk (exampleWorld brokenWalk) ''/r'')
     = Some (OSError ''permission denied'')"
  by code_simp+

lemma broken_tui:
  "filter (included_tui (exampleWorld brokenWalk) ''/r'' [] [])
     (filesOf (beforeError (entryError_tui (exampleWorld brokenWalk) ''/r'')
        (Walk (exampleWorld brokenWalk) ''/r''))) = [''/r/a.go'']"
  "filter (\<lambda>path. \<not> included_tui (exampleWorld brokenWalk) ''/r'' [] [] path)
     (filesOf (beforeError (entryError_tui (exampleWorld brokenWalk) ''/r'')
        (Walk (exampleWorld brokenWalk) ''/r''))) = [''/r/img.png'']"
  "firstError (entryError_tui (exampleWorld brokenWalk) ''/r'') (Walk (exampleWorld brokenWalk) ''/r'')
     = Some (OSError ''permission denied'')"
  by code_simp+

text \<open>
  A walk that fails on its fourth entry, after one file that is included and one that is
  excluded.
\<close>

theorem walk_error_aborts_witness:
  "VErr ''/r/locked'' (OSError ''permission denied'') \<in> set (Walk (exampleWorld brokenWalk) ''/r'') \<and>
   firstInvalid_cli (Compile (exampleWorld brokenWalk)) [] = None \<and>
   firstInvalid_tui (Compile (exampleWorld brokenWalk)) [] = None \<and>
   beforeError (entryError_cli (exampleWorld brokenWalk) ''/r'') (Walk (exampleWorld brokenWalk) ''/r'')
     = [VDir ''/r'', VFile ''/r/a.go'', VFile ''/r/img.png''] \<and>
   performDryRun_cli (exampleWorld brokenWalk) ''/r'' [] []
     = ([''/r/a.go''], [''/r/img.png''], Some (OSError ''permission denied'')) \<and>
   performDryRun_tui (exampleWorld brokenWalk) ''/r'' [] []
     = ([''/r/a.go''], [''/r/img.png''], Some (OSError ''permission denied''))"
proof -
  have "performDryRun_cli (exampleWorld brokenWalk) ''/r'' [] []
          = ([''/r/a.go''], [''/r/img.png''], Some (OSError ''permission denied'')) \<and>
        performDryRun_tui (exampleWorld brokenWalk) ''/r'' [] []
          = ([''/r/a.go''], [''/r/img.png''], Some (OSError ''permission denied''))"
    using walk_error_aborts [OF brokenWalk_has_error, of "[]" "[]"]
    by (simp add: no_patterns_valid broken_cli broken_tui)
  with brokenWalk_has_error broken_prefix show ?thesis
    by (simp add: no_patterns_valid)
qed

text \<open>
  The dry run returns the error and, with it, the one file included and the one file
  excluded before the failure.
\<close>

theorem walk_error_partial_counterexample:
  "performDryRun_cli (exampleWorld brokenWalk) ''/r'' [] []
     = ([''/r/a.go''], [''/r/img.png''], Some (OSError ''permission denied''))"
  by code_simp


section \<open>Null bytes\<close>

text \<open>
  Claim C8. A regular file with a null byte among its first 512 bytes is not a text file for
  either program, whatever its path. No dry run lists it as included, and a dry run that
  visits it and ends without error lists it as excluded, for all exclusion and inclusion
  patterns.
\<close>

theorem null_byte_is_binary:
  assumes "fileAt w path = Regular bs" and "CHR 0x00 \<in> set (take 512 bs)"
  shows "\<not> isTextFile_cli (fileAt w path) \<and> \<not> isTextFile_tui (fileAt w path) \<and>
         path \<notin> set (fst (performDryRun_cli w rootPath ex inc)) \<and>
         path \<notin> set (fst (performDryRun_tui w rootPath ex inc)) \<and>
         (VFile path \<in> set (Walk w rootPath) \<and>
          snd (snd (performDryRun_cli w rootPath ex inc)) = None \<longrightarrow>
            path \<in> set (fst (snd (performDryRun_cli w rootPath ex inc)))) \<and>
         (VFile path \<in> set (Walk w rootPath) \<and>
          snd (snd (performDryRun_tui w rootPath ex inc)) = None \<longrightarrow>
            path \<in> set (fst (snd (performDryRun_tui w rootPath ex inc))))"
proof -
  have c: "\<not> isTextFile_cli (fileAt w path)" and t: "\<not> isTextFile_tui (fileAt w path)"
    using null_not_text [OF assms(2)] assms(1) by simp_all
  show ?thesis
    using c t performDryRun_cli_binary [OF c] performDryRun_tui_binary [OF t] by blast
qed

lemma data_file: "fileAt (exampleWorld cleanWalk) ''/r/data.txt'' = Regular [CHR ''a'', CHR 0x00, CHR ''b'']"
  by (simp add: exampleWorld_def exampleFile_def)

lemma data_visited: "VFile ''/r/data.txt'' \<in> set (Walk (exampleWorld cleanWalk) ''/r'')"
  by (simp add: exampleWorld_def cleanWalk_def)

lemma clean_cli: "performDryRun_cli (exampleWorld cleanWalk) ''/r'' [] []
   = ([''/r/a.go'', ''/r/b.txt''], [''/r/data.txt'', ''/r/img.png''], None)"
  by code_simp

lemma clean_tui: "performDryRun_tui (exampleWorld cleanWalk) ''/r'' [] []
   = ([''/r/a.go'', ''/r/b.txt''], [''/r/data.txt'', ''/r/img.png''], None)"
  by code_simp

theorem null_byte_is_binary_witness:
  "fileAt (exampleWorld cleanWalk) ''/r/data.txt'' = Regular [CHR ''a'', CHR 0x00, CHR ''b''] \<and>
   CHR 0x00 \<in> set (take 512 [CHR ''a'', CHR 0x00, CHR ''b'']) \<and>
   VFile ''/r/data.txt'' \<in> set (Walk (exampleWorld cleanWalk) ''/r'') \<and>
   snd (snd (performDryRun_cli (exampleWorld cleanWalk) ''/r'' [] [])) = None \<and>
   snd (snd (performDryRun_tui (exampleWorld cleanWalk) ''/r'' [] [])) = None \<and>
   \<not> isTextFile_cli (fileAt (exampleWorld cleanWalk) ''/r/data.txt'') \<and>
   ''/r/data.txt'' \<in> set (fst (snd (performDryRun_cli (exampleWorld cleanWalk) ''/r'' [] []))) \<and>
   ''/r/data.txt'' \<in> set (fst (snd (performDryRun_tui (exampleWorld cleanWalk) ''/r'' [] [])))"
  using null_byte_is_binary [OF data_file, of "''/r''" "[]" "[]"] data_file data_visited
  by (simp add: clean_cli clean_tui)

section \<open>File system operations\<close>

lemma map_of_del: "map_of (del P ns) p = (if P p then None else map_of ns p)"
  by (induction ns) (auto simp: del_def)

lemma map_of_put: "map_of (put p n ns) q = (if q = p then Some n else map_of ns q)"
  by (simp add: put_def map_of_del)


lemma metadataPath_nonempty: "Join getTmpCacheDir (h @ ''.json'') \<noteq> []"
  by (simp add: Join_def getTmpCacheDir_def)

lemma list_ex_del: "list_ex Q (del P ns) \<Longrightarrow> list_ex Q ns"
  by (auto simp: del_def list_ex_iff)



lemmas os_defs = os_Stat_def IsNotExist_def os_ReadFile_def os_Remove_def os_RemoveAll_def
  os_MkdirAll_def os_WriteFile_def time_Now_def logio_def node_at_def belowFile_def

text \<open>What the two removals of an expired lookup leave behind.\<close>

lemma Remove_effect:
  assumes "os_Remove p s = (e, s')"
  shows "pinned s' = pinned s" and "iolog s' = Remove p # iolog s"
    and "clock s' = clock s" and "ticks s' = ticks s"
    and "map_of (nodes s') q = (if q = p \<and> e = None then None else map_of (nodes s) q)"
  using assms
  by (auto simp: os_Remove_def logio_def map_of_del node_at_def
      split: if_splits option.splits)

lemma Remove_file:
  assumes "node_at s p = Some (File data)" and "\<not> belowFile s p" and "p \<notin> set (pinned s)"
  shows "fst (os_Remove p s) = None"
  using assms by (simp add: os_Remove_def)



section \<open>Cache expiry\<close>










section \<open>Store and lookup\<close>

lemma belowFile_put:
  assumes "\<not> belowFile s p" and "nodes s' = put p n (nodes s)"
  shows "\<not> belowFile s' p"
proof
  assume "belowFile s' p"
  then have "list_ex (\<lambda>e. fst e \<noteq> [] \<and> fst e \<noteq> p \<and> under (fst e) p \<and> snd e \<noteq> Dir)
               (del (\<lambda>q. q = p) (nodes s))"
    using assms(2) by (simp add: belowFile_def put_def)
  from list_ex_del [OF this] assms(1) show False by (simp add: belowFile_def)
qed

lemma WriteFile_success:
  assumes "os_WriteFile p d s = (None, s')"
  shows "fst (os_ReadFile p s') = Inr d" and "clock s' = clock s" and "ticks s' = ticks s"
    and "pinned s' = pinned s"
proof -
  from assms have p: "p \<noteq> []" "\<not> belowFile s p"
    by (auto simp: os_WriteFile_def split: if_splits)
  from assms p have s': "s' = logio (WriteFile p) (s\<lparr>nodes := put p (File d) (nodes s)\<rparr>)"
    by (auto simp: os_WriteFile_def split: if_splits option.splits node.splits)
  then have n: "nodes s' = put p (File d) (nodes s)" by (simp add: logio_def)
  from belowFile_put [OF p(2) n] have "\<not> belowFile s' p" .
  then show "fst (os_ReadFile p s') = Inr d"
    using p(1) n by (simp add: os_ReadFile_def node_at_def map_of_put)
  show "clock s' = clock s" "ticks s' = ticks s" "pinned s' = pinned s"
    using s' by (simp_all add: logio_def)
qed

lemma MkdirAll_frame:
  assumes "os_MkdirAll p s = (e, s')"
  shows "clock s' = clock s" and "ticks s' = ticks s" and "pinned s' = pinned s"
  using assms
  by (auto simp: os_MkdirAll_def logio_def split: if_splits option.splits node.splits)

lemma cacheRepo_success:
  assumes "cacheRepo env u repoPath s = (None, s1)"
  shows "\<exists>data. Marshal env \<lparr>url = u, cached_at = clock s (ticks s), repo_path = repoPath,
                    expires_at = clock s (Suc (ticks s)) + 5 * minute\<rparr> = Inr data \<and>
           fst (os_ReadFile (Join getTmpCacheDir (urlToHash env u @ ''.json'')) s1) = Inr data \<and>
           clock s1 = clock s \<and> ticks s1 = Suc (Suc (ticks s)) \<and> pinned s1 = pinned s"
proof -
  let ?mp = "Join getTmpCacheDir (urlToHash env u @ ''.json'')"
  let ?E = "\<lparr>url = u, cached_at = clock s (ticks s), repo_path = repoPath,
              expires_at = clock s (Suc (ticks s)) + 5 * minute\<rparr>"
  obtain e sA where m: "os_MkdirAll getTmpCacheDir s = (e, sA)" by (metis surj_pair)
  note fr = MkdirAll_frame [OF m]
  let ?s3 = "sA\<lparr>ticks := Suc (Suc (ticks sA))\<rparr>"
  from assms m have e: "e = None"
    by (auto simp: cacheRepo_def Let_def split: if_splits)
  have unf: "cacheRepo env u repoPath s =
      (case Marshal env ?E of Inl err \<Rightarrow> (Some err, ?s3) | Inr data \<Rightarrow> os_WriteFile ?mp data ?s3)"
    using m e fr by (simp add: cacheRepo_def Let_def time_Now_def split: sum.splits)
  with assms obtain data where d: "Marshal env ?E = Inr data"
    "os_WriteFile ?mp data ?s3 = (None, s1)"
    by (cases "Marshal env ?E") auto
  note w = WriteFile_success [OF d(2)]
  from d(1) w fr show ?thesis by simp
qed

lemma getCachedRepo_fresh:
  assumes "fst (os_ReadFile (Join getTmpCacheDir (urlToHash env u @ ''.json'')) s) = Inr data"
    and "Unmarshal env data = Inr entry"
    and "clock s (ticks s) \<le> expires_at entry"
  shows "\<not> IsNotExist (fst (os_Stat (repo_path entry) s)) \<Longrightarrow>
           fst (getCachedRepo env u s) = (repo_path entry, True, cached_at entry, None)"
    and "IsNotExist (fst (os_Stat (repo_path entry) s)) \<Longrightarrow>
           getCachedRepo env u s =
             (([], False, 0, None),
              snd (os_Remove (Join getTmpCacheDir (urlToHash env u @ ''.json''))
                (logio (Stat (repo_path entry))
                  (snd (time_Now (logio (ReadFile (Join getTmpCacheDir (urlToHash env u @ ''.json'')))
                    (logio (Stat (Join getTmpCacheDir (urlToHash env u @ ''.json''))) s)))))))"
  using assms
  by (auto simp: getCachedRepo_def Let_def split_def os_Stat_def os_ReadFile_def IsNotExist_def
      time_Now_def logio_def node_at_def belowFile_def
      split: if_splits option.splits node.splits error.splits)

text \<open>
  Claim C7, as amended. Suppose storing a local path for a source identifier succeeds, the
  JSON codec gives back the path and the two time stamps of the record the store wrote,
  and the clock reading of the lookup is no later than the expiry stamp of the store (its
  second clock reading plus five minutes). If \<^verbatim>\<open>os.Stat\<close> of the path does not report
  that it does not exist, the lookup finds the entry and returns exactly the stored path,
  with the store's first clock reading as the time of caching. If \<^verbatim>\<open>os.Stat\<close> reports
  that the path does not exist, the lookup reports no entry and no error, and the metadata
  file is gone afterwards unless it cannot be removed.
\<close>

theorem store_then_lookup:
  assumes "cacheRepo env u repoPath s = (None, s1)"
    and "\<And>data. Marshal env \<lparr>url = u, cached_at = clock s (ticks s), repo_path = repoPath,
                     expires_at = clock s (Suc (ticks s)) + 5 * minute\<rparr> = Inr data \<Longrightarrow>
           \<exists>entry. Unmarshal env data = Inr entry \<and> repo_path entry = repoPath \<and>
              cached_at entry = clock s (ticks s) \<and>
              expires_at entry = clock s (Suc (ticks s)) + 5 * minute"
    and "clock s1 (ticks s1) \<le> clock s (Suc (ticks s)) + 5 * minute"
  shows "(\<not> IsNotExist (fst (os_Stat repoPath s1)) \<longrightarrow>
            fst (getCachedRepo env u s1) = (repoPath, True, clock s (ticks s), None)) \<and>
         (IsNotExist (fst (os_Stat repoPath s1)) \<longrightarrow>
            fst (getCachedRepo env u s1) = ([], False, 0, None) \<and>
            (Join getTmpCacheDir (urlToHash env u @ ''.json'') \<notin> set (pinned s1) \<longrightarrow>
               node_at (snd (getCachedRepo env u s1))
                 (Join getTmpCacheDir (urlToHash env u @ ''.json'')) = None))"
proof -
  let ?mp = "Join getTmpCacheDir (urlToHash env u @ ''.json'')"
  from cacheRepo_success [OF assms(1)] obtain data where
    d: "Marshal env \<lparr>url = u, cached_at = clock s (ticks s), repo_path = repoPath,
                     expires_at = clock s (Suc (ticks s)) + 5 * minute\<rparr> = Inr data"
       "fst (os_ReadFile ?mp s1) = Inr data"
    by blast
  from assms(2) [OF d(1)] obtain entry where
    en: "Unmarshal env data = Inr entry" "repo_path entry = repoPath"
        "cached_at entry = clock s (ticks s)"
        "expires_at entry = clock s (Suc (ticks s)) + 5 * minute"
    by blast
  have ttl: "clock s1 (ticks s1) \<le> expires_at entry" using assms(3) en(4) by simp
  note fresh = getCachedRepo_fresh [OF d(2) en(1) ttl, unfolded en(2)]
  have hit: "fst (getCachedRepo env u s1) = (repoPath, True, clock s (ticks s), None)"
    if "\<not> IsNotExist (fst (os_Stat repoPath s1))"
    using fresh(1) [OF that] en(3) by simp
  have miss: "fst (getCachedRepo env u s1) = ([], False, 0, None) \<and>
              (?mp \<notin> set (pinned s1) \<longrightarrow> node_at (snd (getCachedRepo env u s1)) ?mp = None)"
    if gone: "IsNotExist (fst (os_Stat repoPath s1))"
  proof -
    let ?sX = "logio (Stat repoPath)
                 (snd (time_Now (logio (ReadFile ?mp) (logio (Stat ?mp) s1))))"
    obtain e s' where r: "os_Remove ?mp ?sX = (e, s')" by (metis surj_pair)
    have g: "getCachedRepo env u s1 = (([], False, 0, None), s')"
      using fresh(2) [OF gone] r by simp
    have sx: "nodes ?sX = nodes s1" "pinned ?sX = pinned s1"
      by (simp_all add: time_Now_def logio_def)
    have isfile: "node_at ?sX ?mp = Some (File data)" "\<not> belowFile ?sX ?mp"
      using d(2) sx(1)
      by (auto simp: os_ReadFile_def node_at_def belowFile_def
          split: if_splits option.splits node.splits)
    have "node_at s' ?mp = None" if "?mp \<notin> set (pinned s1)"
    proof -
      from Remove_file [OF isfile] that sx(2) r have "e = None" by simp
      with Remove_effect(5) [OF r, of ?mp] show ?thesis by (simp add: node_at_def)
    qed
    with g show ?thesis by simp
  qed
  from hit miss show ?thesis by blast
qed

lemma stored_ok:
  "cacheRepo exampleEnv exampleURL exampleDir (exampleSys [(exampleDir, Dir)] 0) = (None, storedSys)"
proof -
  have "fst (cacheRepo exampleEnv exampleURL exampleDir (exampleSys [(exampleDir, Dir)] 0)) = None"
    by code_simp
  then show ?thesis unfolding storedSys_def by (metis prod.collapse)
qed

lemma stored_missing_ok:
  "cacheRepo exampleEnv exampleURL ''/nowhere'' (exampleSys [] 0) = (None, storedMissingSys)"
proof -
  have "fst (cacheRepo exampleEnv exampleURL ''/nowhere'' (exampleSys [] 0)) = None"
    by code_simp
  then show ?thesis unfolding storedMissingSys_def by (metis prod.collapse)
qed

lemma example_codec:
  "Marshal exampleEnv e = Inr data \<Longrightarrow>
   \<exists>entry. Unmarshal exampleEnv data = Inr entry \<and> repo_path entry = repo_path e \<and>
      cached_at entry = cached_at e \<and> expires_at entry = expires_at e"
  by (auto simp: exampleEnv_def)

lemma stored_in_time:
  "clock storedSys (ticks storedSys)
     \<le> clock (exampleSys [(exampleDir, Dir)] 0) (Suc (ticks (exampleSys [(exampleDir, Dir)] 0))) + 5 * minute"
  "clock storedMissingSys (ticks storedMissingSys)
     \<le> clock (exampleSys [] 0) (Suc (ticks (exampleSys [] 0))) + 5 * minute"
  by code_simp+

lemma stored_stat:
  "\<not> IsNotExist (fst (os_Stat exampleDir storedSys))"
  "IsNotExist (fst (os_Stat ''/nowhere'' storedMissingSys))"
  "Join getTmpCacheDir (urlToHash exampleEnv exampleURL @ ''.json'') \<notin> set (pinned storedMissingSys)"
  by code_simp+

text \<open>Both cases on concrete states: a stored directory that exists, and one that does not.\<close>

theorem store_then_lookup_witness:
  "cacheRepo exampleEnv exampleURL exampleDir (exampleSys [(exampleDir, Dir)] 0) = (None, storedSys) \<and>
   \<not> IsNotExist (fst (os_Stat exampleDir storedSys)) \<and>
   fst (getCachedRepo exampleEnv exampleURL storedSys) = (exampleDir, True, 0, None) \<and>
   cacheRepo exampleEnv exampleURL ''/nowhere'' (exampleSys [] 0) = (None, storedMissingSys) \<and>
   IsNotExist (fst (os_Stat ''/nowhere'' storedMissingSys)) \<and>
   Join getTmpCacheDir (urlToHash exampleEnv exampleURL @ ''.json'') \<notin> set (pinned storedMissingSys) \<and>
   fst (getCachedRepo exampleEnv exampleURL storedMissingSys) = ([], False, 0, None) \<and>
   node_at (snd (getCachedRepo exampleEnv exampleURL storedMissingSys))
     (Join getTmpCacheDir (urlToHash exampleEnv exampleURL @ ''.json'')) = None"
proof -
  let ?s = "exampleSys [(exampleDir, Dir)] 0"
  let ?m = "exampleSys [] 0"
  have c1: "\<exists>entry. Unmarshal exampleEnv data = Inr entry \<and> repo_path entry = exampleDir \<and>
              cached_at entry = clock ?s (ticks ?s) \<and>
              expires_at entry = clock ?s (Suc (ticks ?s)) + 5 * minute"
    if "Marshal exampleEnv \<lparr>url = exampleURL, cached_at = clock ?s (ticks ?s),
          repo_path = exampleDir, expires_at = clock ?s (Suc (ticks ?s)) + 5 * minute\<rparr> = Inr data"
    for data using example_codec [OF that] by simp
  have c2: "\<exists>entry. Unmarshal exampleEnv data = Inr entry \<and> repo_path entry = ''/nowhere'' \<and>
              cached_at entry = clock ?m (ticks ?m) \<and>
              expires_at entry = clock ?m (Suc (ticks ?m)) + 5 * minute"
    if "Marshal exampleEnv \<lparr>url = exampleURL, cached_at = clock ?m (ticks ?m),
          repo_path = ''/nowhere'', expires_at = clock ?m (Suc (ticks ?m)) + 5 * minute\<rparr> = Inr data"
    for data using example_codec [OF that] by simp
  have t0: "clock ?s (ticks ?s) = 0" by (simp add: exampleSys_def exampleClock_def)
  from store_then_lookup [OF stored_ok c1 stored_in_time(1)]
    store_then_lookup [OF stored_missing_ok c2 stored_in_time(2)]
    stored_ok stored_missing_ok stored_stat t0
  show ?thesis by simp
qed

text \<open>
  Storing a path that does not exist succeeds, and the lookup that follows finds nothing
  and removes the metadata file: it checks that the directory exists.
\<close>

theorem store_missing_path_counterexample:
  "cacheRepo exampleEnv exampleURL ''/nowhere'' (exampleSys [] 0) = (None, storedMissingSys) \<and>
   fst (getCachedRepo exampleEnv exampleURL storedMissingSys) = ([], False, 0, None) \<and>
   node_at (snd (getCachedRepo exampleEnv exampleURL storedMissingSys)) exampleMeta = None"
proof -
  have "fst (getCachedRepo exampleEnv exampleURL storedMissingSys) = ([], False, 0, None)"
    "node_at (snd (getCachedRepo exampleEnv exampleURL storedMissingSys)) exampleMeta = None"
    by code_simp+
  with stored_missing_ok show ?thesis by simp
qed

text \<open>
  A stored path below a regular file: \<^verbatim>\<open>os.Stat\<close> fails with an error that is no
  \<^verbatim>\<open>IsNotExist\<close> error, and the lookup returns the entry as found.
\<close>

lemma lookup_below_file_example:
  "fst (os_Stat ''/etc/hosts/repo'' storedBelowFileSys) = Some (OSError ''not a directory'') \<and>
   fst (getCachedRepo exampleEnv exampleURL storedBelowFileSys) = (''/etc/hosts/repo'', True, 0, None)"
  by code_simp


section \<open>Unreadable metadata\<close>















section \<open>Configurations without a single source\<close>

text \<open>
  Claim C9, as amended. Without the TUI flag, \<^verbatim>\<open>main\<close> exits with a configuration
  error, and never calls \<^verbatim>\<open>processRepository\<close>, when neither or both of the URL and
  the local path are given. The terminal UI's resolution fails with a configuration error
  when neither is given, leaving the state (file system, operation log, clock) untouched;
  when both are given it returns the local path, again without touching the state.
\<close>

theorem configuration_errors:
  "(\<not> enableTUI c \<and> githubURL c = [] \<and> localPath c = [] \<longrightarrow> main_cli c = Exit1 MsgNoSource) \<and>
   (\<not> enableTUI c \<and> githubURL c \<noteq> [] \<and> localPath c \<noteq> [] \<longrightarrow> main_cli c = Exit1 MsgBothSources) \<and>
   (URL cfg = [] \<and> Path cfg = [] \<longrightarrow>
      resolveRepositoryPath env cfg s = (Inl NoSourceSpecified, s)) \<and>
   (URL cfg \<noteq> [] \<and> Path cfg \<noteq> [] \<longrightarrow>
      resolveRepositoryPath env cfg s = (Inr (Path cfg), s))"
  by (simp add: main_cli_def resolveRepositoryPath_def)

theorem configuration_errors_witness:
  "main_cli (exampleConfig_cli [] []) = Exit1 MsgNoSource \<and>
   main_cli (exampleConfig_cli exampleURL ''/r'') = Exit1 MsgBothSources \<and>
   resolveRepositoryPath exampleEnv (exampleConfig_tui [] []) (exampleSys [] 0)
     = (Inl NoSourceSpecified, exampleSys [] 0) \<and>
   resolveRepositoryPath exampleEnv (exampleConfig_tui exampleURL ''/r'') (exampleSys [] 0)
     = (Inr ''/r'', exampleSys [] 0)"
  using configuration_errors [of "exampleConfig_cli [] []" "exampleConfig_tui [] []"
      exampleEnv "exampleSys [] 0"]
    configuration_errors [of "exampleConfig_cli exampleURL ''/r''"
      "exampleConfig_tui exampleURL ''/r''" exampleEnv "exampleSys [] 0"]
  by (simp add: exampleConfig_cli_def exampleConfig_tui_def exampleURL_def)

text \<open>A URL and a local path together: the terminal UI's resolution succeeds.\<close>

theorem both_sources_tui_counterexample:
  "URL (exampleConfig_tui exampleURL ''/r'') \<noteq> [] \<and>
   Path (exampleConfig_tui exampleURL ''/r'') \<noteq> [] \<and>
   resolveRepositoryPath exampleEnv (exampleConfig_tui exampleURL ''/r'') (exampleSys [] 0)
     = (Inr ''/r'', exampleSys [] 0)"
  by (simp add: resolveRepositoryPath_def exampleConfig_tui_def exampleURL_def)


section \<open>Glob patterns\<close>

lemma special_simps: "special (CHR ''*'')" "special (CHR ''?'')" "special bsl"
  by (simp_all add: special_def bsl_def)

lemma bsl_neq: "bsl \<noteq> CHR ''*''" "bsl \<noteq> CHR ''?''" "bsl \<noteq> CHR ''.''"
  by (simp_all add: bsl_def)

lemma ReplaceAll_hit: "ReplaceAll (a # b # r) [a, b] new = new @ ReplaceAll r [a, b] new"
  by simp

lemma ReplaceAll_skip:
  "x \<noteq> a \<or> \<not> prefix [b] r \<Longrightarrow> ReplaceAll (x # r) [a, b] new = x # ReplaceAll r [a, b] new"
  by auto

lemma QuoteMeta_head: "\<not> prefix [CHR ''*''] (QuoteMeta cs)"
  by (cases cs) (auto simp: special_simps bsl_neq bsl_neq [symmetric])

lemma star_step:
  "ReplaceAll (QuoteMeta g) [bsl, CHR ''*''] ''.*'' = concat (map starChar g)"
proof (induction g)
  case Nil
  then show ?case by simp
next
  case (Cons c g)
  let ?R = "\<lambda>s. ReplaceAll s [bsl, CHR ''*''] ''.*''"
  note hd = QuoteMeta_head [of g]
  consider "c = CHR ''*''" | "special c" "c \<noteq> CHR ''*''" | "\<not> special c" by blast
  then show ?case
  proof cases
    case 1
    then have "?R (QuoteMeta (c # g)) = ?R (bsl # CHR ''*'' # QuoteMeta g)"
      by (simp add: special_simps)
    also have "\<dots> = ''.*'' @ ?R (QuoteMeta g)" by (rule ReplaceAll_hit)
    finally show ?thesis using 1 Cons.IH by (simp add: starChar_def)
  next
    case 2
    then have "?R (QuoteMeta (c # g)) = ?R (bsl # c # QuoteMeta g)" by simp
    also have "\<dots> = bsl # ?R (c # QuoteMeta g)"
      by (rule ReplaceAll_skip) (use 2 in simp)
    also have "?R (c # QuoteMeta g) = c # ?R (QuoteMeta g)"
      by (rule ReplaceAll_skip) (use hd in simp)
    finally show ?thesis using 2 Cons.IH by (simp add: starChar_def)
  next
    case 3
    then have nb: "c \<noteq> bsl" using special_simps(3) by auto
    from 3 have nst: "c \<noteq> CHR ''*''" using special_simps(1) by auto
    from 3 have "?R (QuoteMeta (c # g)) = ?R (c # QuoteMeta g)" by simp
    also have "\<dots> = c # ?R (QuoteMeta g)"
      by (rule ReplaceAll_skip) (use nb in simp)
    finally show ?thesis using 3 nst Cons.IH by (simp add: starChar_def)
  qed
qed

lemma starChar_head: "\<not> prefix [CHR ''?''] (concat (map starChar g))"
  by (cases g) (auto simp: starChar_def special_simps bsl_neq bsl_neq [symmetric])

lemma quest_step:
  "ReplaceAll (concat (map starChar g)) [bsl, CHR ''?''] ''.'' = concat (map globChar g)"
proof (induction g)
  case Nil
  then show ?case by simp
next
  case (Cons c g)
  let ?R = "\<lambda>s. ReplaceAll s [bsl, CHR ''?''] ''.''"
  let ?t = "concat (map starChar g)"
  note hd = starChar_head [of g]
  consider "c = CHR ''*''" | "c = CHR ''?''" | "special c" "c \<noteq> CHR ''*''" "c \<noteq> CHR ''?''"
    | "\<not> special c" by blast
  then show ?case
  proof cases
    case 1
    then have "?R (concat (map starChar (c # g))) = ?R (CHR ''.'' # CHR ''*'' # ?t)"
      by (simp add: starChar_def)
    also have "\<dots> = CHR ''.'' # ?R (CHR ''*'' # ?t)"
      by (rule ReplaceAll_skip) (use bsl_neq in auto)
    also have "?R (CHR ''*'' # ?t) = CHR ''*'' # ?R ?t"
      by (rule ReplaceAll_skip) (use bsl_neq in auto)
    finally show ?thesis using 1 Cons.IH by (simp add: globChar_def)
  next
    case 2
    then have "?R (concat (map starChar (c # g))) = ?R (bsl # CHR ''?'' # ?t)"
      by (simp add: starChar_def special_simps)
    also have "\<dots> = ''.'' @ ?R ?t" by (rule ReplaceAll_hit)
    finally show ?thesis using 2 Cons.IH by (simp add: globChar_def)
  next
    case 3
    then have "?R (concat (map starChar (c # g))) = ?R (bsl # c # ?t)"
      by (simp add: starChar_def)
    also have "\<dots> = bsl # ?R (c # ?t)"
      by (rule ReplaceAll_skip) (use 3 in simp)
    also have "?R (c # ?t) = c # ?R ?t"
      by (rule ReplaceAll_skip) (use hd in simp)
    finally show ?thesis using 3 Cons.IH by (simp add: globChar_def)
  next
    case 4
    then have n: "c \<noteq> bsl" "c \<noteq> CHR ''*''" "c \<noteq> CHR ''?''" using special_simps by auto
    from 4 n have "?R (concat (map starChar (c # g))) = ?R (c # ?t)"
      by (simp add: starChar_def)
    also have "\<dots> = c # ?R ?t"
      by (rule ReplaceAll_skip) (use n in simp)
    finally show ?thesis using 4 n Cons.IH by (simp add: globChar_def)
  qed
qed

lemma globToRegex_refines: "globToRegex glob = globToRegex_spec glob"
  by (simp add: globToRegex_def globToRegex_spec_def Let_def star_step quest_step
      HasPrefix_def HasSuffix_def suffix_Cons)

text \<open>
  Claim C3, as amended. The glob translation of the terminal UI, which quotes the whole
  pattern and then replaces the quoted \<^verbatim>\<open>*\<close> and \<^verbatim>\<open>?\<close>, is the character-wise
  translation of the specification with its anchoring rule. The terminal UI's matcher
  applies it to every pattern that is no path pattern and contains \<^verbatim>\<open>*\<close> or \<^verbatim>\<open>?\<close>,
  and matches the compiled expression against the relative path or the base name. The
  command line program has no glob translation: it compiles the pattern as it is written.
\<close>

theorem glob_translation:
  "globToRegex glob = globToRegex_spec glob \<and>
   (\<not> isPathPattern pattern \<and> (CHR ''*'' \<in> set pattern \<or> CHR ''?'' \<in> set pattern) \<longrightarrow>
      matchesPattern_tui C pattern relativePath baseName
        = (case C (globToRegex_spec pattern) of
             None \<Rightarrow> False
           | Some regex \<Rightarrow> regex relativePath \<or> regex baseName)) \<and>
   (\<not> isPathPattern pattern \<longrightarrow>
      matchesPattern_cli C pattern relativePath baseName
        = (case C pattern of
             None \<Rightarrow> False
           | Some regex \<Rightarrow> regex relativePath \<or> regex baseName))"
  by (simp add: matchesPattern_tui_def matchesPattern_cli_def regexPattern_tui_def Contains_def
      globToRegex_refines)

lemma go_glob_spec: "globToRegex_spec ''*.go'' = [CHR ''.'', CHR ''*'', bsl, CHR ''.'', CHR ''g'', CHR ''o'', CHR ''$'']"
  by code_simp

lemma go_glob_compiles:
  "re_Compile [CHR ''.'', CHR ''*'', bsl, CHR ''.'', CHR ''g'', CHR ''o'', CHR ''$'']
     = Some (MatchString (Cat (Cat (Cat (Cat (Star AnyNL) (Lit CHR ''.'')) (Lit CHR ''g''))
           (Lit CHR ''o'')) Eol))"
proof -
  have "re_parse [CHR ''.'', CHR ''*'', bsl, CHR ''.'', CHR ''g'', CHR ''o'', CHR ''$'']
     = Ok (Cat (Cat (Cat (Cat (Star AnyNL) (Lit CHR ''.'')) (Lit CHR ''g''))
           (Lit CHR ''o'')) Eol)"
    by code_simp
  then show ?thesis by (simp add: re_Compile_def)
qed

lemma go_glob_matches:
  "MatchString (Cat (Cat (Cat (Cat (Star AnyNL) (Lit CHR ''.'')) (Lit CHR ''g'')) (Lit CHR ''o'')) Eol) ''main.go''"
  "MatchString (Cat (Cat (Cat (Cat (Star AnyNL) (Lit CHR ''.'')) (Lit CHR ''g'')) (Lit CHR ''o'')) Eol) ''pkg/sub/x.go''"
  "MatchString (Cat (Cat (Cat (Cat (Star AnyNL) (Lit CHR ''.'')) (Lit CHR ''g'')) (Lit CHR ''o'')) Eol) ''x.go''"
  "\<not> MatchString (Cat (Cat (Cat (Cat (Star AnyNL) (Lit CHR ''.'')) (Lit CHR ''g'')) (Lit CHR ''o'')) Eol) ''main.go.bak''"
  by code_simp+

lemma go_glob_is_glob:
  "\<not> isPathPattern ''*.go'' \<and> (CHR ''*'' \<in> set ''*.go'' \<or> CHR ''?'' \<in> set ''*.go'')"
  by (simp add: isPathPattern_def HasPrefix_def)

text \<open>
  The glob \<^verbatim>\<open>*.go\<close> in the terminal UI: it matches \<^verbatim>\<open>main.go\<close> and
  \<^verbatim>\<open>pkg/sub/x.go\<close>, and not \<^verbatim>\<open>main.go.bak\<close>.
\<close>

theorem glob_translation_witness:
  "\<not> isPathPattern ''*.go'' \<and> (CHR ''*'' \<in> set ''*.go'' \<or> CHR ''?'' \<in> set ''*.go'') \<and>
   matchesPattern_tui re_Compile ''*.go'' ''main.go'' ''main.go'' \<and>
   matchesPattern_tui re_Compile ''*.go'' ''pkg/sub/x.go'' ''x.go'' \<and>
   \<not> matchesPattern_tui re_Compile ''*.go'' ''main.go.bak'' ''main.go.bak''"
  using glob_translation [of "''*.go''" "''*.go''" re_Compile "''main.go''" "''main.go''"]
    glob_translation [of "''*.go''" "''*.go''" re_Compile "''pkg/sub/x.go''" "''x.go''"]
    glob_translation [of "''*.go''" "''*.go''" re_Compile "''main.go.bak''" "''main.go.bak''"]
    go_glob_is_glob
  by (simp add: go_glob_spec go_glob_compiles go_glob_matches)

text \<open>
  In the command line program \<^verbatim>\<open>*.go\<close> is handed to \<^verbatim>\<open>regexp.Compile\<close> as it is,
  which rejects it (a repetition operator without an argument); it does not match
  \<^verbatim>\<open>main.go\<close>.
\<close>

theorem glob_cli_counterexample:
  "\<not> isPathPattern ''*.go'' \<and> CHR ''*'' \<in> set ''*.go'' \<and> re_parse ''*.go'' = Bad \<and>
   \<not> matchesPattern_cli re_Compile ''*.go'' ''main.go'' ''main.go''"
  by code_simp

end
